theory Spec2Isabelle
  imports Complex_Main
begin

section \<open>Python library functions used by the decoders\<close>

text \<open>
  Strings are lists of 8-bit characters, read as the code points below 256.
  Python floats are modelled by exact rationals: \<open>raw / 10.0\<close> is the rational
  \<open>raw / 10\<close>, and the only float failure kept is the \<open>OverflowError\<close> of
  converting an integer beyond the double range.
\<close>

datatype exn =
  ValueError | OverflowError | IntegrityError | OSError | OperationalError | DataError

text \<open>\<open>str.isspace\<close> on code points below 256.\<close>

definition isspace :: "char \<Rightarrow> bool" where
  "isspace c =
     (let n = (of_char c :: int)
      in (9 \<le> n \<and> n \<le> 13) \<or> (28 \<le> n \<and> n \<le> 32) \<or> n = 133 \<or> n = 160)"

text \<open>\<open>str.strip()\<close>: leading and trailing whitespace removed.\<close>

definition strip :: "string \<Rightarrow> string" where
  "strip s = rev (dropWhile isspace (rev (dropWhile isspace s)))"

text \<open>\<open>str.split('\t')\<close>: the empty string splits into one empty field.\<close>

fun split_tab :: "string \<Rightarrow> string list" where
  "split_tab [] = [[]]"
| "split_tab (c # cs) =
     (if c = CHR 0x09 then [] # split_tab cs
      else (case split_tab cs of
              [] \<Rightarrow> [[c]]
            | p # ps \<Rightarrow> (c # p) # ps))"

definition isdigit :: "char \<Rightarrow> bool" where
  "isdigit c = (48 \<le> (of_char c :: int) \<and> (of_char c :: int) \<le> 57)"

definition digit_val :: "char \<Rightarrow> int" where
  "digit_val c = (of_char c :: int) - 48"

text \<open>
  \<open>int(s)\<close> in base 10. The blanks it skips at both ends are not those of
  \<open>str.strip\<close>: below 128 only tab, line feed, vertical tab, form feed, carriage return
  and space (the separators \<open>0x1C\<close> to \<open>0x1F\<close> are refused), above it the Unicode
  spaces \<open>0x85\<close> and \<open>0xA0\<close>. One sign is allowed, and single underscores may sit
  between digits. More than \<open>sys.get_int_max_str_digits()\<close> digits, 4300 by default,
  are refused. Anything refused raises \<open>ValueError\<close>, here \<open>None\<close>.
\<close>

definition int_blank :: "char \<Rightarrow> bool" where
  "int_blank c =
     (let n = (of_char c :: int)
      in (9 \<le> n \<and> n \<le> 13) \<or> n = 32 \<or> n = 133 \<or> n = 160)"

definition int_strip :: "string \<Rightarrow> string" where
  "int_strip s = rev (dropWhile int_blank (rev (dropWhile int_blank s)))"

definition max_str_digits :: int where
  "max_str_digits = 4300"

fun py_digits :: "int \<Rightarrow> string \<Rightarrow> int option" where
  "py_digits acc [] = Some acc"
| "py_digits acc [c] =
     (if isdigit c then Some (10 * acc + digit_val c) else None)"
| "py_digits acc (c # d # cs) =
     (if isdigit c then py_digits (10 * acc + digit_val c) (d # cs)
      else if c = CHR ''_'' \<and> isdigit d then py_digits (10 * acc + digit_val d) cs
      else None)"

text \<open>The digits after the sign: the first character is a digit, and the digits are counted.\<close>

definition py_nat :: "string \<Rightarrow> int option" where
  "py_nat s =
     (case s of
        [] \<Rightarrow> None
      | c # cs \<Rightarrow>
          if isdigit c \<and> int (length (filter isdigit s)) \<le> max_str_digits
          then py_digits (digit_val c) cs else None)"

definition py_int :: "string \<Rightarrow> int option" where
  "py_int s =
     (case int_strip s of
        [] \<Rightarrow> None
      | c # cs \<Rightarrow>
          if c = CHR ''-'' then map_option uminus (py_nat cs)
          else if c = CHR ''+'' then py_nat cs
          else py_nat (c # cs))"

text \<open>
  \<open>datetime.strptime(s, '%Y%m%d').date()\<close>. The format compiles to the regular
  expression \<open>(\d\d\d\d)(1[0-2]|0[1-9]|[1-9])(3[01]|[12]\d|0[1-9]|[1-9]| [1-9])\<close>;
  the alternatives are tried in this order, the first complete match is taken, and
  input left over after it raises \<open>ValueError\<close>, as does a day the calendar does
  not have or the year 0.
\<close>

type_synonym date = "int \<times> int \<times> int"

definition month_alts :: "string \<Rightarrow> (int \<times> string) list" where
  "month_alts s =
     (case s of
        a # b # r \<Rightarrow>
          (if a = CHR ''1'' \<and> isdigit b \<and> digit_val b \<le> 2 then [(10 + digit_val b, r)] else []) @
          (if a = CHR ''0'' \<and> isdigit b \<and> 1 \<le> digit_val b then [(digit_val b, r)] else [])
      | _ \<Rightarrow> []) @
     (case s of
        a # r \<Rightarrow> if isdigit a \<and> 1 \<le> digit_val a then [(digit_val a, r)] else []
      | [] \<Rightarrow> [])"

definition day_alts :: "string \<Rightarrow> (int \<times> string) list" where
  "day_alts s =
     (case s of
        a # b # r \<Rightarrow>
          (if a = CHR ''3'' \<and> isdigit b \<and> digit_val b \<le> 1 then [(30 + digit_val b, r)] else []) @
          (if (a = CHR ''1'' \<or> a = CHR ''2'') \<and> isdigit b
           then [(10 * digit_val a + digit_val b, r)] else []) @
          (if a = CHR ''0'' \<and> isdigit b \<and> 1 \<le> digit_val b then [(digit_val b, r)] else [])
      | _ \<Rightarrow> []) @
     (case s of
        a # r \<Rightarrow> if isdigit a \<and> 1 \<le> digit_val a then [(digit_val a, r)] else []
      | [] \<Rightarrow> []) @
     (case s of
        a # b # r \<Rightarrow>
          if a = CHR '' '' \<and> isdigit b \<and> 1 \<le> digit_val b then [(digit_val b, r)] else []
      | _ \<Rightarrow> [])"

definition is_leap :: "int \<Rightarrow> bool" where
  "is_leap y = (y mod 4 = 0 \<and> (y mod 100 \<noteq> 0 \<or> y mod 400 = 0))"

definition days_in_month :: "int \<Rightarrow> int \<Rightarrow> int" where
  "days_in_month y m =
     (if m = 2 then (if is_leap y then 29 else 28)
      else if m = 4 \<or> m = 6 \<or> m = 9 \<or> m = 11 then 30 else 31)"

definition strptime_Ymd :: "string \<Rightarrow> date option" where
  "strptime_Ymd s =
     (case s of
        y1 # y2 # y3 # y4 # r \<Rightarrow>
          if isdigit y1 \<and> isdigit y2 \<and> isdigit y3 \<and> isdigit y4 then
            (case concat (map (\<lambda>(m, r1). map (\<lambda>(d, r2). (m, d, r2)) (day_alts r1))
                             (month_alts r)) of
               [] \<Rightarrow> None
             | (m, d, rest) # _ \<Rightarrow>
                 let y = 1000 * digit_val y1 + 100 * digit_val y2 + 10 * digit_val y3
                         + digit_val y4
                 in if rest \<noteq> [] \<or> y < 1 \<or> days_in_month y m < d then None
                    else Some (y, m, d))
          else None
      | _ \<Rightarrow> None)"

text \<open>
  \<open>raw / 10.0\<close>: the integer is converted to a double first, which raises
  \<open>OverflowError\<close> from \<open>2^1024 - 2^970\<close> on.
\<close>

definition truediv10 :: "int \<Rightarrow> exn + rat" where
  "truediv10 r =
     (if 2 ^ 1024 - 2 ^ 970 \<le> \<bar>r\<bar> then Inl OverflowError else Inr (of_int r / 10))"

section \<open>Record decoder (src/ingest.py, parse\_weather\_line)\<close>

record observation =
  observation_date :: date
  raw_max_temp :: "int option"
  raw_min_temp :: "int option"
  raw_precip :: "int option"
  max_temp_c :: "rat option"
  min_temp_c :: "rat option"
  precip_mm :: "rat option"
  precip_cm :: "rat option"

text \<open>\<open>int(s) if s != '-9999' else None\<close>.\<close>

definition raw_field :: "string \<Rightarrow> exn + int option" where
  "raw_field s =
     (if s \<noteq> ''-9999''
      then (case py_int s of None \<Rightarrow> Inl ValueError | Some r \<Rightarrow> Inr (Some r))
      else Inr None)"

text \<open>\<open>raw / 10.0 if raw is not None else None\<close>.\<close>

definition clean_field :: "int option \<Rightarrow> exn + rat option" where
  "clean_field raw =
     (case raw of
        None \<Rightarrow> Inr None
      | Some r \<Rightarrow> (case truediv10 r of Inl e \<Rightarrow> Inl e | Inr v \<Rightarrow> Inr (Some v)))"

text \<open>The body of the \<open>try\<close> block: \<open>Inl\<close> is an exception raised inside it.\<close>

definition parse_weather_line_try :: "string \<Rightarrow> exn + observation option" where
  "parse_weather_line_try line =
     (case split_tab (strip line) of
        [date_str, max_temp_str, min_temp_str, precip_str] \<Rightarrow>
          (case strptime_Ymd date_str of
             None \<Rightarrow> Inl ValueError
           | Some od \<Rightarrow>
          (case raw_field max_temp_str of Inl e \<Rightarrow> Inl e | Inr rmax \<Rightarrow>
          (case raw_field min_temp_str of Inl e \<Rightarrow> Inl e | Inr rmin \<Rightarrow>
          (case raw_field precip_str of Inl e \<Rightarrow> Inl e | Inr rpre \<Rightarrow>
          (case clean_field rmax of Inl e \<Rightarrow> Inl e | Inr cmax \<Rightarrow>
          (case clean_field rmin of Inl e \<Rightarrow> Inl e | Inr cmin \<Rightarrow>
          (case clean_field rpre of Inl e \<Rightarrow> Inl e | Inr pmm \<Rightarrow>
             Inr (Some \<lparr>observation_date = od,
                        raw_max_temp = rmax, raw_min_temp = rmin, raw_precip = rpre,
                        max_temp_c = cmax, min_temp_c = cmin, precip_mm = pmm,
                        precip_cm = map_option (\<lambda>v. v / 10) pmm\<rparr>))))))))
      | _ \<Rightarrow> Inr None)"

text \<open>\<open>except Exception: return None\<close>.\<close>

definition parse_weather_line :: "string \<Rightarrow> observation option" where
  "parse_weather_line line =
     (case parse_weather_line_try line of Inl e \<Rightarrow> None | Inr res \<Rightarrow> res)"

section \<open>Quality scorer (src/ingest.py, ingest\_weather\_data, lines 200 to 229)\<close>

datatype quality = Excellent | Good | Fair | Poor

definition missing_values_of :: "rat option \<Rightarrow> rat option \<Rightarrow> rat option \<Rightarrow> nat" where
  "missing_values_of mx mn pr = length (filter (\<lambda>v. v = None) [mx, mn, pr])"

definition outlier_count_of :: "rat option \<Rightarrow> rat option \<Rightarrow> rat option \<Rightarrow> nat" where
  "outlier_count_of mx mn pr =
     (case mx of Some v \<Rightarrow> if v > 50 \<or> v < - 50 then 1 else 0 | None \<Rightarrow> 0) +
     (case mn of Some v \<Rightarrow> if v > 40 \<or> v < - 60 then 1 else 0 | None \<Rightarrow> 0) +
     (case pr of Some v \<Rightarrow> if v > 1000 then 1 else 0 | None \<Rightarrow> 0)"

definition inconsistent :: "rat option \<Rightarrow> rat option \<Rightarrow> bool" where
  "inconsistent mx mn =
     (case mx of
        None \<Rightarrow> False
      | Some a \<Rightarrow> (case mn of None \<Rightarrow> False | Some b \<Rightarrow> a < b))"

text \<open>
  \<open>quality_score = max(0.0, 1.0 - missing_values * 0.2 - outlier_count * 0.1)\<close>, then
  under the consistency test \<open>quality_score -= 0.3; quality_score = max(0.0, quality_score)\<close>.
\<close>

definition quality_score_of :: "nat \<Rightarrow> nat \<Rightarrow> bool \<Rightarrow> rat" where
  "quality_score_of missing outliers incons =
     (let q = max 0 (1 - of_nat missing * (2 / 10) - of_nat outliers * (1 / 10))
      in if incons then max 0 (q - 3 / 10) else q)"

definition data_quality_of :: "rat \<Rightarrow> quality" where
  "data_quality_of q =
     (if q \<ge> 9 / 10 then Excellent
      else if q \<ge> 7 / 10 then Good
      else if q \<ge> 5 / 10 then Fair
      else Poor)"

definition score_observation :: "rat option \<Rightarrow> rat option \<Rightarrow> rat option \<Rightarrow> rat" where
  "score_observation mx mn pr =
     quality_score_of (missing_values_of mx mn pr) (outlier_count_of mx mn pr)
       (inconsistent mx mn)"


text \<open>\<open>str(n)\<close> for a non-negative integer.\<close>

fun str_nat :: "nat \<Rightarrow> string" where
  "str_nat n =
     (if n < 10 then [char_of (48 + n)]
      else str_nat (n div 10) @ [char_of (48 + n mod 10)])"

declare str_nat.simps [simp del]

section \<open>Decoders of the sqlite3 scripts (answers/)\<close>

record raw_observation =
  date_of :: date
  max_temp :: "int option"
  min_temp :: "int option"
  precip :: "int option"

text \<open>\<open>None if s == "-9999" else int(s)\<close>.\<close>

definition sentinel_int :: "string \<Rightarrow> exn + int option" where
  "sentinel_int s =
     (if s = ''-9999'' then Inr None
      else (case py_int s of None \<Rightarrow> Inl ValueError | Some r \<Rightarrow> Inr (Some r)))"

text \<open>The dictionary display shared by both scripts; its entries are evaluated in order.\<close>

definition decode_parts ::
  "string \<Rightarrow> string \<Rightarrow> string \<Rightarrow> string \<Rightarrow> exn + raw_observation" where
  "decode_parts date_str mx mn pr =
     (case strptime_Ymd date_str of
        None \<Rightarrow> Inl ValueError
      | Some d \<Rightarrow>
     (case sentinel_int mx of Inl e \<Rightarrow> Inl e | Inr a \<Rightarrow>
     (case sentinel_int mn of Inl e \<Rightarrow> Inl e | Inr b \<Rightarrow>
     (case sentinel_int pr of Inl e \<Rightarrow> Inl e | Inr c \<Rightarrow>
        Inr \<lparr>date_of = d, max_temp = a, min_temp = b, precip = c\<rparr>))))"

text \<open>answers/etl\_runner.py, \<open>parse_line\<close>: the display sits in \<open>try ... except: return None\<close>.\<close>

definition parse_line_etl_runner :: "string \<Rightarrow> raw_observation option" where
  "parse_line_etl_runner line =
     (case split_tab (strip line) of
        [date_str, mx, mn, pr] \<Rightarrow>
          (case decode_parts date_str mx mn pr of Inl e \<Rightarrow> None | Inr data \<Rightarrow> Some data)
      | _ \<Rightarrow> None)"

text \<open>
  answers/ingest\_weather.py, \<open>parse_line\<close>: the same display without the \<open>try\<close>;
  \<open>Inl\<close> is the exception leaving the function.
\<close>

definition parse_line_ingest_weather :: "string \<Rightarrow> exn + raw_observation option" where
  "parse_line_ingest_weather line =
     (case split_tab (strip line) of
        [date_str, mx, mn, pr] \<Rightarrow>
          (case decode_parts date_str mx mn pr of Inl e \<Rightarrow> Inl e | Inr data \<Rightarrow> Inr (Some data))
      | _ \<Rightarrow> Inr None)"

section \<open>Fact store (src/models.py, WeatherFact; src/ingest.py, upsert\_weather\_fact)\<close>

record weather_fact = observation +
  station_id :: string
  source :: string
  data_quality :: quality
  quality_score :: rat
  missing_values :: nat
  outlier_count :: nat
  quality_notes :: string
  ingested_at :: nat
  ingest_run_id :: string

text \<open>The composite primary key; the table is a map from it, so it holds one row per key.\<close>

type_synonym fact_key = "string \<times> date \<times> string"

type_synonym fact_table = "fact_key \<rightharpoonup> weather_fact"

definition key_of :: "weather_fact \<Rightarrow> fact_key" where
  "key_of f = (station_id f, observation_date f, source f)"

text \<open>The three CHECK constraints of \<open>__table_args__\<close>.\<close>

definition ck_raw_max_temp :: "int option \<Rightarrow> bool" where
  "ck_raw_max_temp v = (case v of None \<Rightarrow> True | Some r \<Rightarrow> - 9999 \<le> r \<and> r \<le> 6000)"

definition ck_raw_min_temp :: "int option \<Rightarrow> bool" where
  "ck_raw_min_temp v = (case v of None \<Rightarrow> True | Some r \<Rightarrow> - 9999 \<le> r \<and> r \<le> 6000)"

definition ck_raw_precip :: "int option \<Rightarrow> bool" where
  "ck_raw_precip v = (case v of None \<Rightarrow> True | Some r \<Rightarrow> 0 \<le> r \<and> r \<le> 10000)"

definition check_constraints :: "weather_fact \<Rightarrow> bool" where
  "check_constraints f =
     (ck_raw_max_temp (raw_max_temp f) \<and> ck_raw_min_temp (raw_min_temp f)
      \<and> ck_raw_precip (raw_precip f))"

text \<open>
  What becomes of the values of a row before any constraint is looked at. sqlite3 binds a
  Python integer only if it fits 64 bits and raises \<open>OverflowError\<close> otherwise; SQLite
  gives the \<open>SmallInteger\<close> and \<open>String(n)\<close> columns no width. PostgreSQL stores a
  \<open>SMALLINT\<close> in 16 bits and a \<open>VARCHAR(n)\<close> in \<open>n\<close> characters, and a value beyond
  raises \<open>DataError\<close>, except that excess characters that are all spaces are cut off. Of
  a database reached on the fallback branch only the primary key and the CHECK constraints
  are modelled, a violation of either raising \<open>IntegrityError\<close>.
\<close>

datatype dialect = SQLite | PostgreSQL | OtherDialect

definition sqlite_int_ok :: "int option \<Rightarrow> bool" where
  "sqlite_int_ok v = (case v of None \<Rightarrow> True | Some r \<Rightarrow> - (2 ^ 63) \<le> r \<and> r < 2 ^ 63)"

definition smallint_ok :: "int option \<Rightarrow> bool" where
  "smallint_ok v = (case v of None \<Rightarrow> True | Some r \<Rightarrow> - 32768 \<le> r \<and> r \<le> 32767)"

definition pg_varchar :: "nat \<Rightarrow> string \<Rightarrow> exn + string" where
  "pg_varchar n s =
     (if length s \<le> n then Inr s
      else if list_all (\<lambda>c. c = CHR '' '') (drop n s) then Inr (take n s)
      else Inl DataError)"

definition stored :: "dialect \<Rightarrow> weather_fact \<Rightarrow> exn + weather_fact" where
  "stored d f =
     (case d of
        SQLite \<Rightarrow>
          if sqlite_int_ok (raw_max_temp f) \<and> sqlite_int_ok (raw_min_temp f)
             \<and> sqlite_int_ok (raw_precip f)
          then Inr f else Inl OverflowError
      | PostgreSQL \<Rightarrow>
          if \<not> (smallint_ok (raw_max_temp f) \<and> smallint_ok (raw_min_temp f)
                 \<and> smallint_ok (raw_precip f))
          then Inl DataError
          else
            (case pg_varchar 20 (station_id f) of Inl e \<Rightarrow> Inl e | Inr sid \<Rightarrow>
            (case pg_varchar 50 (source f) of Inl e \<Rightarrow> Inl e | Inr src \<Rightarrow>
            (case pg_varchar 36 (ingest_run_id f) of Inl e \<Rightarrow> Inl e | Inr run_id \<Rightarrow>
               Inr (f\<lparr>station_id := sid, source := src, ingest_run_id := run_id\<rparr>))))
      | OtherDialect \<Rightarrow> Inr f)"

text \<open>
  \<open>SET\<close> with the dictionary \<open>fact_data\<close>: each of its seventeen columns is assigned
  in the existing row.
\<close>

definition set_columns :: "weather_fact \<Rightarrow> weather_fact \<Rightarrow> weather_fact" where
  "set_columns old fact_data =
     old\<lparr>station_id := station_id fact_data,
         observation_date := observation_date fact_data,
         source := source fact_data,
         raw_max_temp := raw_max_temp fact_data,
         raw_min_temp := raw_min_temp fact_data,
         raw_precip := raw_precip fact_data,
         max_temp_c := max_temp_c fact_data,
         min_temp_c := min_temp_c fact_data,
         precip_mm := precip_mm fact_data,
         precip_cm := precip_cm fact_data,
         data_quality := data_quality fact_data,
         quality_score := quality_score fact_data,
         missing_values := missing_values fact_data,
         outlier_count := outlier_count fact_data,
         quality_notes := quality_notes fact_data,
         ingested_at := ingested_at fact_data,
         ingest_run_id := ingest_run_id fact_data\<rparr>"

text \<open>\<open>INSERT\<close>: refused on a failed CHECK and on an existing key.\<close>

definition sql_insert :: "weather_fact \<Rightarrow> fact_table \<Rightarrow> exn + fact_table" where
  "sql_insert f tbl =
     (if \<not> check_constraints f then Inl IntegrityError
      else (case tbl (key_of f) of
              Some old \<Rightarrow> Inl IntegrityError
            | None \<Rightarrow> Inr (tbl(key_of f \<mapsto> f))))"

text \<open>\<open>UPDATE ... WHERE\<close> the key matches: no row matched is no error.\<close>

definition sql_update :: "weather_fact \<Rightarrow> fact_table \<Rightarrow> exn + fact_table" where
  "sql_update f tbl =
     (case tbl (key_of f) of
        None \<Rightarrow> Inr tbl
      | Some old \<Rightarrow>
          if \<not> check_constraints (set_columns old f) then Inl IntegrityError
          else Inr (tbl(key_of f \<mapsto> set_columns old f)))"

text \<open>
  \<open>INSERT ... ON CONFLICT (station_id, observation_date, source) DO UPDATE SET ...\<close> on
  SQLite and PostgreSQL.
\<close>

definition sql_upsert :: "dialect \<Rightarrow> weather_fact \<Rightarrow> fact_table \<Rightarrow> exn + fact_table" where
  "sql_upsert d f tbl =
     (case stored d f of
        Inl e \<Rightarrow> Inl e
      | Inr row \<Rightarrow>
          if \<not> check_constraints row then Inl IntegrityError
          else (case tbl (key_of row) of
                  None \<Rightarrow> Inr (tbl(key_of row \<mapsto> row))
                | Some old \<Rightarrow> Inr (tbl(key_of row \<mapsto> set_columns old row))))"

definition upsert_weather_fact :: "dialect \<Rightarrow> weather_fact \<Rightarrow> fact_table \<Rightarrow> exn + fact_table" where
  "upsert_weather_fact d fact_data tbl =
     (case d of
        SQLite \<Rightarrow> sql_upsert SQLite fact_data tbl
      | PostgreSQL \<Rightarrow> sql_upsert PostgreSQL fact_data tbl
      | OtherDialect \<Rightarrow>
          (case sql_insert fact_data tbl of
             Inr tbl' \<Rightarrow> Inr tbl'
           | Inl e \<Rightarrow> if e = IntegrityError then sql_update fact_data tbl else Inl e))"

section \<open>Ingestion (src/ingest.py, ingest\_weather\_data)\<close>

record station =
  station_name :: string
  latitude :: rat
  longitude :: rat
  state_code :: string
  active :: bool

record database =
  stations :: "string \<rightharpoonup> station"
  weather_facts :: fact_table

text \<open>The dictionary \<open>fact_data\<close> built for one parsed line; \<open>now\<close> is \<open>datetime.utcnow()\<close>.\<close>

definition build_fact :: "string \<Rightarrow> string \<Rightarrow> string \<Rightarrow> nat \<Rightarrow> observation \<Rightarrow> weather_fact" where
  "build_fact sid src run_id now parsed =
     (let missing = missing_values_of (max_temp_c parsed) (min_temp_c parsed) (precip_mm parsed);
          outliers = outlier_count_of (max_temp_c parsed) (min_temp_c parsed) (precip_mm parsed);
          score = quality_score_of missing outliers
                    (inconsistent (max_temp_c parsed) (min_temp_c parsed))
      in \<lparr>observation_date = observation_date parsed,
          raw_max_temp = raw_max_temp parsed,
          raw_min_temp = raw_min_temp parsed,
          raw_precip = raw_precip parsed,
          max_temp_c = max_temp_c parsed,
          min_temp_c = min_temp_c parsed,
          precip_mm = precip_mm parsed,
          precip_cm = precip_cm parsed,
          station_id = sid,
          source = src,
          data_quality = data_quality_of score,
          quality_score = score,
          missing_values = missing,
          outlier_count = outliers,
          quality_notes = ''Missing: '' @ str_nat missing @ '', Outliers: '' @ str_nat outliers,
          ingested_at = now,
          ingest_run_id = run_id\<rparr>)"

text \<open>
  The loop over the lines of one file. \<open>clock n\<close> is what \<open>datetime.utcnow()\<close> returns
  at its call number \<open>n\<close> of the run; it is called once for every parsed line, so \<open>n\<close> is
  \<open>total_records\<close>. Every upsert commits, so the table returned beside an exception is
  the committed one.
\<close>

fun ingest_lines ::
  "dialect \<Rightarrow> (nat \<Rightarrow> nat) \<Rightarrow> string \<Rightarrow> string \<Rightarrow> string \<Rightarrow> string list \<Rightarrow> fact_table \<Rightarrow> nat
   \<Rightarrow> (exn + nat) \<times> fact_table" where
  "ingest_lines d clock sid src run_id [] tbl total_records = (Inr total_records, tbl)"
| "ingest_lines d clock sid src run_id (line # rest) tbl total_records =
     (if strip line \<noteq> [] then
        (case parse_weather_line line of
           None \<Rightarrow> ingest_lines d clock sid src run_id rest tbl total_records
         | Some parsed \<Rightarrow>
             (case upsert_weather_fact d
                     (build_fact sid src run_id (clock total_records) parsed) tbl of
                Inl e \<Rightarrow> (Inl e, tbl)
              | Inr tbl' \<Rightarrow> ingest_lines d clock sid src run_id rest tbl' (total_records + 1)))
      else ingest_lines d clock sid src run_id rest tbl total_records)"

definition endswith_txt :: "string \<Rightarrow> bool" where
  "endswith_txt f = (take 4 (rev f) = rev ''.txt'')"

text \<open>\<open>filename.replace('.txt', '')\<close>: every occurrence is removed, left to right.\<close>

function replace_txt :: "string \<Rightarrow> string" where
  "replace_txt [] = []"
| "replace_txt (c # cs) =
     (if take 4 (c # cs) = ''.txt'' then replace_txt (drop 3 cs) else c # replace_txt cs)"
  by pat_completeness auto
termination
  by (relation "measure length") auto

text \<open>
  The station of a file is looked up by its id and added when the lookup finds none. In
  PostgreSQL the id goes into a \<open>VARCHAR(20)\<close> and the name into a \<open>VARCHAR(100)\<close>; an id
  cut to one that is in the table already violates the primary key.
\<close>

definition new_station :: "string \<Rightarrow> station" where
  "new_station nm =
     \<lparr>station_name = nm, latitude = 0, longitude = 0, state_code = ''XX'', active = True\<rparr>"

definition ensure_station ::
  "dialect \<Rightarrow> string \<Rightarrow> (string \<rightharpoonup> station) \<Rightarrow> exn + (string \<rightharpoonup> station)" where
  "ensure_station d sid sts =
     (case sts sid of
        Some st \<Rightarrow> Inr sts
      | None \<Rightarrow>
          (case d of
             PostgreSQL \<Rightarrow>
               (case pg_varchar 20 sid of Inl e \<Rightarrow> Inl e | Inr sid' \<Rightarrow>
               (case pg_varchar 100 (''Station '' @ sid) of Inl e \<Rightarrow> Inl e | Inr nm \<Rightarrow>
                  if sts sid' \<noteq> None then Inl IntegrityError
                  else Inr (sts(sid' \<mapsto> new_station nm))))
           | SQLite \<Rightarrow> Inr (sts(sid \<mapsto> new_station (''Station '' @ sid)))
           | OtherDialect \<Rightarrow> Inr (sts(sid \<mapsto> new_station (''Station '' @ sid)))))"

text \<open>
  The loop over the files. An exception leaves it through \<open>except Exception\<close>, which rolls
  back (nothing is uncommitted) and raises again.
\<close>

fun ingest_files ::
  "dialect \<Rightarrow> (nat \<Rightarrow> nat) \<Rightarrow> string \<Rightarrow> string \<Rightarrow> (string \<times> string list) list \<Rightarrow> database \<Rightarrow> nat
   \<Rightarrow> (exn + nat) \<times> database" where
  "ingest_files d clock src run_id [] db total_records = (Inr total_records, db)"
| "ingest_files d clock src run_id ((filename, lines) # files) db total_records =
     (let sid = replace_txt filename
      in (case ensure_station d sid (stations db) of
            Inl e \<Rightarrow> (Inl e, db)
          | Inr sts \<Rightarrow>
             (case ingest_lines d clock sid src run_id lines (weather_facts db) total_records of
                (Inl e, tbl) \<Rightarrow> (Inl e, \<lparr>stations = sts, weather_facts = tbl\<rparr>)
              | (Inr n, tbl) \<Rightarrow>
                  ingest_files d clock src run_id files \<lparr>stations = sts, weather_facts = tbl\<rparr> n)))"

definition ingest_weather_data ::
  "dialect \<Rightarrow> (nat \<Rightarrow> nat) \<Rightarrow> (string \<times> string list) list \<Rightarrow> string \<Rightarrow> string \<Rightarrow> database
   \<Rightarrow> (exn + nat) \<times> database" where
  "ingest_weather_data d clock wx_data_dir src run_id db =
     ingest_files d clock src run_id (filter (\<lambda>(f, ls). endswith_txt f) wx_data_dir) db 0"


section \<open>File sweep of answers/etl\_runner.py\<close>

text \<open>
  The table \<open>weather\<close> with \<open>PRIMARY KEY (station_id, date)\<close>, as the list of its rows
  in insertion order.
\<close>

record weather_row =
  w_station_id :: string
  w_date :: date
  w_max_temp_c :: "int option"
  w_min_temp_c :: "int option"
  w_precipitation_mm :: "int option"

type_synonym weather_table = "weather_row list"

definition row_key :: "weather_row \<Rightarrow> string \<times> date" where
  "row_key r = (w_station_id r, w_date r)"

text \<open>
  \<open>INSERT OR IGNORE\<close>: the integers are bound as \<open>sqlite_int_ok\<close> tells; a row whose key
  is in the table is dropped, the table stays.
\<close>

definition insert_or_ignore :: "weather_row \<Rightarrow> weather_table \<Rightarrow> exn + weather_table" where
  "insert_or_ignore r tbl =
     (if \<not> (sqlite_int_ok (w_max_temp_c r) \<and> sqlite_int_ok (w_min_temp_c r)
             \<and> sqlite_int_ok (w_precipitation_mm r))
      then Inl OverflowError
      else if row_key r \<in> set (map row_key tbl) then Inr tbl
      else Inr (tbl @ [r]))"

text \<open>What \<open>for line in file\<close> yields: the next line, or an exception of the read.\<close>

datatype read_event = Line string | ReadError

fun process_lines ::
  "string \<Rightarrow> read_event list \<Rightarrow> weather_table \<Rightarrow> nat \<Rightarrow> (exn + nat) \<times> weather_table" where
  "process_lines sid [] tbl count = (Inr count, tbl)"
| "process_lines sid (ReadError # rest) tbl count = (Inl OSError, tbl)"
| "process_lines sid (Line line # rest) tbl count =
     (case parse_line_etl_runner line of
        None \<Rightarrow> process_lines sid rest tbl count
      | Some data \<Rightarrow>
          (case insert_or_ignore
                  \<lparr>w_station_id = sid, w_date = date_of data, w_max_temp_c = max_temp data,
                   w_min_temp_c = min_temp data, w_precipitation_mm = precip data\<rparr> tbl of
             Inl e \<Rightarrow> (Inl e, tbl)
           | Inr tbl' \<Rightarrow> process_lines sid rest tbl' (count + 1)))"

text \<open>
  \<open>os.path.splitext(name)[0]\<close> for a name that ends in \<open>.txt\<close>: the extension is cut
  unless only periods come before it.
\<close>

definition splitext_stem :: "string \<Rightarrow> string" where
  "splitext_stem f =
     (let stem = take (length f - 4) f
      in if list_all (\<lambda>c. c = CHR ''.'') stem then f else stem)"

definition process_file ::
  "string \<Rightarrow> read_event list \<Rightarrow> weather_table \<Rightarrow> (exn + string \<times> nat) \<times> weather_table" where
  "process_file filename evs tbl =
     (let sid = splitext_stem filename
      in (case process_lines sid evs tbl 0 of
            (Inl e, tbl') \<Rightarrow> (Inl e, tbl')
          | (Inr count, tbl') \<Rightarrow> (Inr (sid, count), tbl')))"

text \<open>
  One entry of the watch directory during a sweep: the name, what reading the file yields,
  and whether \<open>shutil.move\<close> to the archive succeeds.
\<close>

record dir_entry =
  entry_name :: string
  entry_reads :: "read_event list"
  entry_movable :: bool

record etl_state =
  weather :: weather_table
  archive_dir :: "string list"
  watch_dir :: "string list"
  total_files :: nat
  total_records :: nat

text \<open>
  The loop of \<open>main\<close>. \<open>watch_dir\<close> collects the names still in the watch location after
  their turn, \<open>archive_dir\<close> the names moved. Rows inserted before a failure stay in the
  connection and are committed with the rest at the end.
\<close>

fun sweep :: "dir_entry list \<Rightarrow> etl_state \<Rightarrow> etl_state" where
  "sweep [] st = st"
| "sweep (e # rest) st =
     (if endswith_txt (entry_name e) then
        (case process_file (entry_name e) (entry_reads e) (weather st) of
           (Inl ex, tbl) \<Rightarrow>
             sweep rest (st\<lparr>weather := tbl, watch_dir := watch_dir st @ [entry_name e]\<rparr>)
         | (Inr (sid, count), tbl) \<Rightarrow>
             if entry_movable e then
               sweep rest (st\<lparr>weather := tbl,
                                archive_dir := archive_dir st @ [entry_name e],
                                total_files := total_files st + 1,
                                total_records := total_records st + count\<rparr>)
             else
               sweep rest (st\<lparr>weather := tbl,
                                watch_dir := watch_dir st @ [entry_name e],
                                total_records := total_records st + count\<rparr>))
      else sweep rest (st\<lparr>watch_dir := watch_dir st @ [entry_name e]\<rparr>))"

definition main :: "dir_entry list \<Rightarrow> weather_table \<Rightarrow> etl_state" where
  "main listing tbl =
     sweep listing \<lparr>weather = tbl, archive_dir = [], watch_dir = [],
                    total_files = 0, total_records = 0\<rparr>"

section \<open>Aggregation (src/analyze.py and answers/aggregate\_stats.py)\<close>

text \<open>
  SQL aggregates over a column: \<open>AVG\<close> and \<open>SUM\<close> run over the rows, skip \<open>NULL\<close>, and
  are \<open>NULL\<close> when no row contributed.
\<close>

definition sql_acc :: "rat option list \<Rightarrow> rat \<times> nat" where
  "sql_acc col =
     fold (\<lambda>v (acc, n). case v of None \<Rightarrow> (acc, n) | Some x \<Rightarrow> (acc + x, n + 1))
          col (0, 0)"

definition sql_avg :: "rat option list \<Rightarrow> rat option" where
  "sql_avg col = (case sql_acc col of (acc, n) \<Rightarrow> if n = 0 then None else Some (acc / of_nat n))"

definition sql_sum :: "rat option list \<Rightarrow> rat option" where
  "sql_sum col = (case sql_acc col of (acc, n) \<Rightarrow> if n = 0 then None else Some acc)"

record aggregation_row =
  avg_max_temp_c :: "rat option"
  avg_min_temp_c :: "rat option"
  total_precip_mm :: "rat option"
  record_count :: nat
  avg_quality_score :: "rat option"

text \<open>The select list of the three queries of src/analyze.py, over the rows of one group.\<close>

definition aggregate_group :: "weather_fact list \<Rightarrow> aggregation_row" where
  "aggregate_group rows =
     \<lparr>avg_max_temp_c = sql_avg (map max_temp_c rows),
      avg_min_temp_c = sql_avg (map min_temp_c rows),
      total_precip_mm = sql_sum (map precip_mm rows),
      record_count = length rows,
      avg_quality_score = sql_avg (map (\<lambda>f. Some (quality_score f)) rows)\<rparr>"

text \<open>
  \<open>GROUP BY\<close>: one output row for each key that occurs, over the rows with that key. The
  query leaves the order of the output rows open; here they come by first occurrence of
  their key.
\<close>

definition group_by :: "('r \<Rightarrow> 'k) \<Rightarrow> ('r list \<Rightarrow> 'a) \<Rightarrow> 'r list \<Rightarrow> ('k \<times> 'a) list" where
  "group_by keyf agg rows =
     map (\<lambda>k. (k, agg (filter (\<lambda>r. keyf r = k) rows))) (remdups (map keyf rows))"

definition year_of :: "date \<Rightarrow> int" where
  "year_of d = fst d"

definition month_of :: "date \<Rightarrow> int" where
  "month_of d = fst (snd d)"

text \<open>The \<open>GROUP BY\<close> expressions of the three queries.\<close>

definition annual_key :: "weather_fact \<Rightarrow> string \<times> int" where
  "annual_key f = (station_id f, year_of (observation_date f))"

definition monthly_key :: "weather_fact \<Rightarrow> string \<times> int \<times> int" where
  "monthly_key f = (station_id f, year_of (observation_date f), month_of (observation_date f))"

definition quarterly_key :: "weather_fact \<Rightarrow> string \<times> int \<times> int" where
  "quarterly_key f =
     (station_id f, year_of (observation_date f), (month_of (observation_date f) - 1) div 3 + 1)"

definition annual_weather_aggregation ::
  "weather_fact list \<Rightarrow> ((string \<times> int) \<times> aggregation_row) list" where
  "annual_weather_aggregation facts = group_by annual_key aggregate_group facts"

definition monthly_weather_aggregation ::
  "weather_fact list \<Rightarrow> ((string \<times> int \<times> int) \<times> aggregation_row) list" where
  "monthly_weather_aggregation facts = group_by monthly_key aggregate_group facts"

definition quarterly_weather_aggregation ::
  "weather_fact list \<Rightarrow> ((string \<times> int \<times> int) \<times> aggregation_row) list" where
  "quarterly_weather_aggregation facts = group_by quarterly_key aggregate_group facts"

text \<open>
  answers/aggregate\_stats.py, the \<open>SELECT\<close> of \<open>INSERT_SUMMARY_SQL\<close>: the \<open>WHERE\<close> clause
  keeps the rows with all three values present, then groups by station and year. The table
  is given as the list of its rows in the order in which the statement visits them.
\<close>

record summary_row =
  s_avg_max_temp_c :: "rat option"
  s_avg_min_temp_c :: "rat option"
  s_total_precip_cm :: "rat option"

definition int_column :: "int option list \<Rightarrow> rat option list" where
  "int_column col = map (map_option of_int) col"

definition summarise_group :: "weather_row list \<Rightarrow> summary_row" where
  "summarise_group rows =
     \<lparr>s_avg_max_temp_c = map_option (\<lambda>v. v / 10) (sql_avg (int_column (map w_max_temp_c rows))),
      s_avg_min_temp_c = map_option (\<lambda>v. v / 10) (sql_avg (int_column (map w_min_temp_c rows))),
      s_total_precip_cm =
        map_option (\<lambda>v. v / 100) (sql_sum (int_column (map w_precipitation_mm rows)))\<rparr>"

definition all_present :: "weather_row \<Rightarrow> bool" where
  "all_present r =
     (w_max_temp_c r \<noteq> None \<and> w_min_temp_c r \<noteq> None \<and> w_precipitation_mm r \<noteq> None)"

definition summary_key :: "weather_row \<Rightarrow> string \<times> int" where
  "summary_key r = (w_station_id r, year_of (w_date r))"

text \<open>
  \<open>SUM\<close> over the INTEGER column \<open>precipitation_mm\<close>: SQLite adds in 64 bits, row after
  row, and the statement fails with \<open>integer overflow\<close> when an addition has left that
  range. \<open>AVG\<close> does not fail.
\<close>

fun sum_overflows :: "int \<Rightarrow> int option list \<Rightarrow> bool" where
  "sum_overflows acc [] = False"
| "sum_overflows acc (None # vs) = sum_overflows acc vs"
| "sum_overflows acc (Some v # vs) =
     (acc + v < - (2 ^ 63) \<or> 2 ^ 63 \<le> acc + v \<or> sum_overflows (acc + v) vs)"

definition weather_summary ::
  "weather_table \<Rightarrow> exn + ((string \<times> int) \<times> summary_row) list" where
  "weather_summary tbl =
     (let groups = group_by summary_key (\<lambda>rows. rows) (filter all_present tbl)
      in if list_ex (\<lambda>(k, rows). sum_overflows 0 (map w_precipitation_mm rows)) groups
         then Inl OperationalError
         else Inr (map (\<lambda>(k, rows). (k, summarise_group rows)) groups))"


section \<open>Notions of the specification\<close>

text \<open>The score as the specification writes it: one clamp of one expression.\<close>

definition clamp01 :: "rat \<Rightarrow> rat" where
  "clamp01 x = max 0 (min 1 x)"

definition spec_missing_count :: "rat option \<Rightarrow> rat option \<Rightarrow> rat option \<Rightarrow> nat" where
  "spec_missing_count mx mn pr =
     (if mx = None then 1 else 0) + (if mn = None then 1 else 0) + (if pr = None then 1 else 0)"

definition spec_score :: "rat option \<Rightarrow> rat option \<Rightarrow> rat option \<Rightarrow> rat" where
  "spec_score mx mn pr =
     clamp01 (1 - 2 / 10 * of_nat (spec_missing_count mx mn pr)
                - 1 / 10 * of_nat (outlier_count_of mx mn pr)
                - (case (mx, mn) of (Some a, Some b) \<Rightarrow> if a < b then 3 / 10 else 0 | _ \<Rightarrow> 0))"

text \<open>
  A numeric field as the specification reads it: the sentinel literal is null, any other
  text is the integer it spells, and the clean value is a tenth of the raw one. A field is
  well formed when it is the sentinel or spells an integer a double can hold.
\<close>

definition decode_raw :: "string \<Rightarrow> int option" where
  "decode_raw s = (if s = ''-9999'' then None else py_int s)"

definition tenths :: "int option \<Rightarrow> rat option" where
  "tenths raw = map_option (\<lambda>r. of_int r / 10) raw"

definition field_ok :: "string \<Rightarrow> bool" where
  "field_ok s =
     (s = ''-9999''
      \<or> (case py_int s of None \<Rightarrow> False | Some r \<Rightarrow> \<bar>r\<bar> < 2 ^ 1024 - 2 ^ 970))"

definition example_line :: string where
  "example_line =
     ''20200101'' @ [CHR 0x09] @ ''-9999'' @ [CHR 0x09] @ ''10'' @ [CHR 0x09] @ ''5''"

text \<open>The observation of the line \<open>20200101 -600 450 -9999\<close>.\<close>

definition inverted_outliers :: observation where
  "inverted_outliers =
     \<lparr>observation_date = (2020, 1, 1),
      raw_max_temp = Some (- 600), raw_min_temp = Some 450, raw_precip = None,
      max_temp_c = Some (- 60), min_temp_c = Some 45, precip_mm = None, precip_cm = None\<rparr>"

text \<open>A line whose third field starts with the separator \<open>0x1C\<close>, which \<open>int\<close> refuses.\<close>

definition separator_line :: string where
  "separator_line =
     ''20200101'' @ [CHR 0x09] @ ''5'' @ [CHR 0x09] @ [CHR 0x1C] @ ''10'' @ [CHR 0x09] @ ''0''"

definition dashed_line :: string where
  "dashed_line =
     ''2020-01-01'' @ [CHR 0x09] @ ''10'' @ [CHR 0x09] @ ''5'' @ [CHR 0x09] @ ''0''"

text \<open>
  A row without its ingestion time, and a table of such rows: what two tables share when
  they differ in \<open>ingested_at\<close> only.
\<close>

definition without_ingested_at :: "weather_fact \<Rightarrow> weather_fact" where
  "without_ingested_at f = f\<lparr>ingested_at := 0\<rparr>"

definition erase_time :: "fact_table \<Rightarrow> fact_table" where
  "erase_time tbl = (\<lambda>k. map_option without_ingested_at (tbl k))"

definition empty_db :: database where
  "empty_db = \<lparr>stations = Map.empty, weather_facts = Map.empty\<rparr>"

text \<open>The raw values of an observation are within the ranges of the CHECK constraints.\<close>

definition raw_in_range :: "observation \<Rightarrow> bool" where
  "raw_in_range p =
     (ck_raw_max_temp (raw_max_temp p) \<and> ck_raw_min_temp (raw_min_temp p)
      \<and> ck_raw_precip (raw_precip p))"

definition lines_in_range :: "string list \<Rightarrow> bool" where
  "lines_in_range ls =
     list_all (\<lambda>l. case parse_weather_line l of None \<Rightarrow> True | Some p \<Rightarrow> raw_in_range p) ls"

definition files_in_range :: "(string \<times> string list) list \<Rightarrow> bool" where
  "files_in_range files = list_all (\<lambda>(f, ls). lines_in_range ls) files"

text \<open>
  The strings of a fact fit the \<open>VARCHAR\<close> columns of PostgreSQL, and the station ids of
  the files of a directory do. The exception with which the upsert statement refuses a fact.
\<close>

definition strings_fit :: "dialect \<Rightarrow> weather_fact \<Rightarrow> bool" where
  "strings_fit d f =
     (d \<noteq> PostgreSQL
      \<or> (length (station_id f) \<le> 20 \<and> length (source f) \<le> 50 \<and> length (ingest_run_id f) \<le> 36))"

definition stations_fit :: "dialect \<Rightarrow> (string \<times> string list) list \<Rightarrow> bool" where
  "stations_fit d files =
     (d \<noteq> PostgreSQL \<or> list_all (\<lambda>(f, ls). length (replace_txt f) \<le> 20) files)"

definition rejection :: "dialect \<Rightarrow> weather_fact \<Rightarrow> exn" where
  "rejection d f = (case stored d f of Inl e \<Rightarrow> e | Inr row \<Rightarrow> IntegrityError)"

text \<open>Every row of the table satisfies the CHECK constraints.\<close>

definition all_checked :: "fact_table \<Rightarrow> bool" where
  "all_checked tbl = (\<forall>k f. tbl k = Some f \<longrightarrow> check_constraints f)"

text \<open>Two lines of a file \<open>S.txt\<close>: a raw maximum of 99999, and a line within range.\<close>

definition bad_line :: string where
  "bad_line = ''20200101'' @ [CHR 0x09] @ ''99999'' @ [CHR 0x09] @ ''10'' @ [CHR 0x09] @ ''5''"

definition good_line :: string where
  "good_line = ''20200102'' @ [CHR 0x09] @ ''100'' @ [CHR 0x09] @ ''50'' @ [CHR 0x09] @ ''0''"

definition one_file :: "(string \<times> string list) list" where
  "one_file = [(''S.txt'', [good_line])]"

definition two_lines :: "(string \<times> string list) list" where
  "two_lines = [(''S.txt'', [bad_line, good_line])]"

text \<open>The observation of \<open>good_line\<close>, and two rows of the table \<open>weather\<close> with one key.\<close>

definition good_observation :: observation where
  "good_observation =
     \<lparr>observation_date = (2020, 1, 2),
      raw_max_temp = Some 100, raw_min_temp = Some 50, raw_precip = Some 0,
      max_temp_c = Some 10, min_temp_c = Some 5, precip_mm = Some 0, precip_cm = Some 0\<rparr>"

definition old_row :: weather_row where
  "old_row = \<lparr>w_station_id = ''S'', w_date = (2020, 1, 2), w_max_temp_c = Some 250,
              w_min_temp_c = Some 125, w_precipitation_mm = Some 7\<rparr>"

definition new_row :: weather_row where
  "new_row = \<lparr>w_station_id = ''S'', w_date = (2020, 1, 2), w_max_temp_c = Some 100,
              w_min_temp_c = Some 50, w_precipitation_mm = Some 0\<rparr>"

text \<open>
  Reading a file meets no unrecoverable error: no read fails, and no decoded value is
  beyond what sqlite3 binds.
\<close>

fun reads_ok :: "read_event list \<Rightarrow> bool" where
  "reads_ok [] = True"
| "reads_ok (ReadError # rest) = False"
| "reads_ok (Line line # rest) =
     (case parse_line_etl_runner line of
        None \<Rightarrow> reads_ok rest
      | Some data \<Rightarrow>
          sqlite_int_ok (max_temp data) \<and> sqlite_int_ok (min_temp data)
          \<and> sqlite_int_ok (precip data) \<and> reads_ok rest)"

text \<open>The rows the lines of a file decode to, and their insertion one after the other.\<close>

fun rows_of :: "string \<Rightarrow> read_event list \<Rightarrow> weather_row list" where
  "rows_of sid [] = []"
| "rows_of sid (ReadError # rest) = rows_of sid rest"
| "rows_of sid (Line line # rest) =
     (case parse_line_etl_runner line of
        None \<Rightarrow> rows_of sid rest
      | Some data \<Rightarrow>
          \<lparr>w_station_id = sid, w_date = date_of data, w_max_temp_c = max_temp data,
           w_min_temp_c = min_temp data, w_precipitation_mm = precip data\<rparr> # rows_of sid rest)"

definition insert_rows :: "weather_row list \<Rightarrow> weather_table \<Rightarrow> weather_table" where
  "insert_rows rows tbl =
     fold (\<lambda>r t. if row_key r \<in> set (map row_key t) then t else t @ [r]) rows tbl"

text \<open>The entries a sweep moves to the archive.\<close>

definition archivable :: "dir_entry \<Rightarrow> bool" where
  "archivable e =
     (endswith_txt (entry_name e) \<and> reads_ok (entry_reads e) \<and> entry_movable e)"

definition later_line :: string where
  "later_line = ''20200103'' @ [CHR 0x09] @ ''110'' @ [CHR 0x09] @ ''-9999'' @ [CHR 0x09] @ ''3''"

definition failing_entry :: dir_entry where
  "failing_entry =
     \<lparr>entry_name = ''A.txt'', entry_reads = [Line good_line, ReadError], entry_movable = True\<rparr>"

definition clean_entry :: dir_entry where
  "clean_entry =
     \<lparr>entry_name = ''B.txt'', entry_reads = [Line good_line], entry_movable = True\<rparr>"

text \<open>
  The mean and the sum of the specification: over the values that are present, and null
  when none is.
\<close>

fun non_null :: "'a option list \<Rightarrow> 'a list" where
  "non_null [] = []"
| "non_null (None # vs) = non_null vs"
| "non_null (Some x # vs) = x # non_null vs"

definition mean_of :: "rat list \<Rightarrow> rat option" where
  "mean_of xs = (if xs = [] then None else Some (sum_list xs / of_nat (length xs)))"

definition sum_of :: "rat list \<Rightarrow> rat option" where
  "sum_of xs = (if xs = [] then None else Some (sum_list xs))"

text \<open>
  A fact as ingestion builds it from raw values, and two facts of one station and year; three
  rows of the table \<open>weather\<close>, one of them without a precipitation value.
\<close>

definition observed :: "date \<Rightarrow> int option \<Rightarrow> int option \<Rightarrow> int option \<Rightarrow> weather_fact" where
  "observed d mx mn pr =
     build_fact ''S'' ''manual'' ''run'' 0
       \<lparr>observation_date = d, raw_max_temp = mx, raw_min_temp = mn, raw_precip = pr,
        max_temp_c = map_option (\<lambda>r. of_int r / 10) mx,
        min_temp_c = map_option (\<lambda>r. of_int r / 10) mn,
        precip_mm = map_option (\<lambda>r. of_int r / 10) pr,
        precip_cm = map_option (\<lambda>r. of_int r / 100) pr\<rparr>"

definition two_facts :: "weather_fact list" where
  "two_facts = [observed (2020, 1, 2) (Some 100) None (Some 5),
                observed (2020, 7, 3) (Some 120) None None]"

definition partial_rows :: weather_table where
  "partial_rows =
     [\<lparr>w_station_id = ''S'', w_date = (2020, 1, 1), w_max_temp_c = Some 100,
       w_min_temp_c = Some 50, w_precipitation_mm = None\<rparr>,
      \<lparr>w_station_id = ''S'', w_date = (2020, 1, 2), w_max_temp_c = Some 200,
       w_min_temp_c = Some 60, w_precipitation_mm = Some 5\<rparr>,
      \<lparr>w_station_id = ''T'', w_date = (2020, 1, 1), w_max_temp_c = Some 300,
       w_min_temp_c = None, w_precipitation_mm = None\<rparr>]"

section \<open>The quality scorer\<close>

lemma counts_le_3: "missing_values_of mx mn pr + outlier_count_of mx mn pr \<le> 3"
  by (cases mx; cases mn; cases pr) (simp_all add: missing_values_of_def outlier_count_of_def)

lemma inconsistent_missing_le_1: "inconsistent mx mn \<Longrightarrow> missing_values_of mx mn pr \<le> 1"
  by (cases mx; cases mn; cases pr) (simp_all add: missing_values_of_def inconsistent_def)

lemma score_refines_spec: "score_observation mx mn pr = spec_score mx mn pr"
  by (cases mx; cases mn; cases pr)
     (simp_all add: score_observation_def spec_score_def quality_score_of_def clamp01_def
        missing_values_of_def spec_missing_count_def outlier_count_of_def inconsistent_def
        Let_def)

lemma quality_score_build_fact:
  "quality_score (build_fact sid src run_id now p) =
     score_observation (max_temp_c p) (min_temp_c p) (precip_mm p)"
  by (simp add: build_fact_def score_observation_def Let_def)

lemma data_quality_build_fact:
  "data_quality (build_fact sid src run_id now p) =
     data_quality_of (quality_score (build_fact sid src run_id now p))"
  by (simp add: build_fact_def Let_def)

lemma tier_bounds:
  "(data_quality_of q = Excellent \<longleftrightarrow> 9 / 10 \<le> q) \<and>
   (data_quality_of q = Good \<longleftrightarrow> 7 / 10 \<le> q \<and> q < 9 / 10) \<and>
   (data_quality_of q = Fair \<longleftrightarrow> 5 / 10 \<le> q \<and> q < 7 / 10) \<and>
   (data_quality_of q = Poor \<longleftrightarrow> q < 5 / 10)"
  by (simp add: data_quality_of_def)

lemma inverted_temperatures_score:
  "p \<le> 1000 \<Longrightarrow> score_observation (Some 5) (Some 10) (Some p) = 7 / 10"
  by (simp add: score_observation_def quality_score_of_def Let_def missing_values_of_def
        outlier_count_of_def inconsistent_def)

lemma missing_precip_score: "score_observation (Some 10) (Some 2) None = 8 / 10"
  by (simp add: score_observation_def quality_score_of_def Let_def missing_values_of_def
        outlier_count_of_def inconsistent_def)

text \<open>
  C3. The score stored by ingestion is the clamp of
  \<open>1 - 0.2 * missing - 0.1 * outliers - (0.3 if both temperatures are present and max < min)\<close>,
  the tier is read from it with inclusive lower bounds 0.9, 0.7 and 0.5, and the two
  records of the specification score 0.7 and 0.8, both tier good.
\<close>

theorem quality_score_formula_and_tier:
  "quality_score (build_fact sid src run_id now p)
     = spec_score (max_temp_c p) (min_temp_c p) (precip_mm p)
   \<and> data_quality (build_fact sid src run_id now p)
     = data_quality_of (quality_score (build_fact sid src run_id now p))
   \<and> (data_quality_of q = Excellent \<longleftrightarrow> 9 / 10 \<le> q)
   \<and> (data_quality_of q = Good \<longleftrightarrow> 7 / 10 \<le> q \<and> q < 9 / 10)
   \<and> (data_quality_of q = Fair \<longleftrightarrow> 5 / 10 \<le> q \<and> q < 7 / 10)
   \<and> (data_quality_of q = Poor \<longleftrightarrow> q < 5 / 10)
   \<and> (pr \<le> 1000 \<longrightarrow> score_observation (Some 5) (Some 10) (Some pr) = 7 / 10)
   \<and> data_quality_of (7 / 10) = Good
   \<and> score_observation (Some 10) (Some 2) None = 8 / 10
   \<and> data_quality_of (8 / 10) = Good"
proof -
  have "quality_score (build_fact sid src run_id now p)
          = spec_score (max_temp_c p) (min_temp_c p) (precip_mm p)"
    by (simp only: quality_score_build_fact score_refines_spec)
  moreover have "data_quality_of (7 / 10) = Good" "data_quality_of (8 / 10) = Good"
    by (simp_all add: data_quality_of_def)
  ultimately show ?thesis
    using tier_bounds [of q] inverted_temperatures_score [of pr] missing_precip_score
      data_quality_build_fact [of sid src run_id now p]
    by blast
qed

theorem quality_score_formula_and_tier_witness:
  "(0 :: rat) \<le> 1000
   \<and> score_observation (Some 5) (Some 10) (Some 0) = 7 / 10
   \<and> data_quality_of (score_observation (Some 5) (Some 10) (Some 0)) = Good
   \<and> data_quality_of (score_observation (Some 10) (Some 2) None) = Good"
  using quality_score_formula_and_tier
          [of "''S''" "''manual''" "''r''" 0 inverted_outliers "7 / 10" 0]
  by (simp add: score_observation_def quality_score_of_def missing_values_of_def
        outlier_count_of_def inconsistent_def data_quality_of_def)

lemma quality_score_of_range: "0 \<le> quality_score_of m k i \<and> quality_score_of m k i \<le> 1"
  by (simp add: quality_score_of_def Let_def max_def)

lemma quality_score_of_antimono_missing:
  "m \<le> m' \<Longrightarrow> quality_score_of m' k i \<le> quality_score_of m k i"
  by (simp add: quality_score_of_def Let_def max_def)

lemma quality_score_of_antimono_outliers:
  "k \<le> k' \<Longrightarrow> quality_score_of m k' i \<le> quality_score_of m k i"
  by (simp add: quality_score_of_def Let_def max_def)

text \<open>
  C8. The score of every combination of null and non-null clean values lies in [0, 1], and
  with the other inputs fixed a larger missing count or a larger outlier count never gives
  a larger score.
\<close>

theorem quality_score_bounded_and_antimonotone:
  "0 \<le> quality_score (build_fact sid src run_id now p)
   \<and> quality_score (build_fact sid src run_id now p) \<le> 1
   \<and> 0 \<le> quality_score_of m k i \<and> quality_score_of m k i \<le> 1
   \<and> (m \<le> m' \<longrightarrow> quality_score_of m' k i \<le> quality_score_of m k i)
   \<and> (k \<le> k' \<longrightarrow> quality_score_of m k' i \<le> quality_score_of m k i)"
  using quality_score_of_range [of m k i]
    quality_score_of_range [of "missing_values_of (max_temp_c p) (min_temp_c p) (precip_mm p)"
      "outlier_count_of (max_temp_c p) (min_temp_c p) (precip_mm p)"
      "inconsistent (max_temp_c p) (min_temp_c p)"]
    quality_score_of_antimono_missing [of m m' k i]
    quality_score_of_antimono_outliers [of k k' m i]
  by (simp add: quality_score_build_fact score_observation_def)

theorem quality_score_bounded_and_antimonotone_witness:
  "(1 :: nat) \<le> 2 \<and> (0 :: nat) \<le> 1
   \<and> quality_score_of 2 0 True \<le> quality_score_of 1 0 True
   \<and> quality_score_of 1 1 True \<le> quality_score_of 1 0 True
   \<and> quality_score_of 1 0 True = 1 / 2 \<and> quality_score_of 2 0 True = 3 / 10
   \<and> quality_score_of 1 1 True = 4 / 10"
  using quality_score_bounded_and_antimonotone [of _ _ _ _ _ 1 0 True 2 1]
  by (simp add: quality_score_of_def)

lemma score_observation_unclamped:
  "score_observation mx mn pr =
     1 - of_nat (missing_values_of mx mn pr) * (2 / 10)
       - of_nat (outlier_count_of mx mn pr) * (1 / 10)
       - (if inconsistent mx mn then 3 / 10 else 0)"
  by (cases mx; cases mn; cases pr)
     (simp_all add: score_observation_def quality_score_of_def Let_def
        missing_values_of_def outlier_count_of_def inconsistent_def)

lemma first_clamp_idle:
  "4 / 10 \<le> (1 :: rat) - of_nat (missing_values_of mx mn pr) * (2 / 10)
                       - of_nat (outlier_count_of mx mn pr) * (1 / 10)"
  by (cases mx; cases mn; cases pr) (simp_all add: missing_values_of_def outlier_count_of_def)

lemma score_observation_ge: "3 / 10 \<le> score_observation mx mn pr"
  by (cases mx; cases mn; cases pr)
     (simp_all add: score_observation_def quality_score_of_def Let_def
        missing_values_of_def outlier_count_of_def inconsistent_def)

text \<open>
  C10. The score ingestion stores is at least 0.3 and so never 0; both arguments of
  \<open>max(0.0, ...)\<close> are positive, so neither clamp changes its argument and the score is
  the plain difference. The bound is met by a record without precipitation whose two
  temperatures are both outliers and inverted.
\<close>

theorem quality_score_at_least_three_tenths:
  "3 / 10 \<le> quality_score (build_fact sid src run_id now p)
   \<and> quality_score (build_fact sid src run_id now p) \<noteq> 0
   \<and> 0 < (1 :: rat) - of_nat (missing_values (build_fact sid src run_id now p)) * (2 / 10)
                     - of_nat (outlier_count (build_fact sid src run_id now p)) * (1 / 10)
   \<and> quality_score (build_fact sid src run_id now p) =
       1 - of_nat (missing_values (build_fact sid src run_id now p)) * (2 / 10)
         - of_nat (outlier_count (build_fact sid src run_id now p)) * (1 / 10)
         - (if inconsistent (max_temp_c p) (min_temp_c p) then 3 / 10 else 0)
   \<and> score_observation (Some (- 60)) (Some 45) None = 3 / 10"
proof -
  let ?mx = "max_temp_c p" and ?mn = "min_temp_c p" and ?pr = "precip_mm p"
  have m: "missing_values (build_fact sid src run_id now p) = missing_values_of ?mx ?mn ?pr"
    and k: "outlier_count (build_fact sid src run_id now p) = outlier_count_of ?mx ?mn ?pr"
    by (simp_all add: build_fact_def Let_def)
  have ge: "3 / 10 \<le> quality_score (build_fact sid src run_id now p)"
    by (simp only: quality_score_build_fact score_observation_ge)
  have tight: "score_observation (Some (- 60)) (Some 45) None = 3 / 10"
    by (simp add: score_observation_def quality_score_of_def Let_def missing_values_of_def
          outlier_count_of_def inconsistent_def)
  show ?thesis
    using ge first_clamp_idle [of ?mx ?mn ?pr] score_observation_unclamped [of ?mx ?mn ?pr] tight
    by (simp add: m k quality_score_build_fact)
qed

theorem quality_score_at_least_three_tenths_witness:
  "inconsistent (max_temp_c inverted_outliers) (min_temp_c inverted_outliers)
   \<and> missing_values (build_fact ''S'' ''manual'' ''r'' 0 inverted_outliers) = 1
   \<and> outlier_count (build_fact ''S'' ''manual'' ''r'' 0 inverted_outliers) = 2
   \<and> quality_score (build_fact ''S'' ''manual'' ''r'' 0 inverted_outliers) = 3 / 10
   \<and> (3 :: rat) / 10 \<le> quality_score (build_fact ''S'' ''manual'' ''r'' 0 inverted_outliers)"
  using quality_score_at_least_three_tenths
          [of "''S''" "''manual''" "''r''" 0 inverted_outliers]
  by (simp add: inconsistent_def inverted_outliers_def build_fact_def Let_def
        missing_values_of_def outlier_count_of_def quality_score_of_def)

section \<open>The decoders\<close>

lemma raw_field_ok: "field_ok s \<Longrightarrow> raw_field s = Inr (decode_raw s)"
  by (auto simp: field_ok_def raw_field_def decode_raw_def split: option.splits)

lemma clean_field_ok: "field_ok s \<Longrightarrow> clean_field (decode_raw s) = Inr (tenths (decode_raw s))"
  by (auto simp: field_ok_def clean_field_def decode_raw_def tenths_def truediv10_def
        split: option.splits)

lemma example_decodes:
  "parse_weather_line example_line =
     Some \<lparr>observation_date = (2020, 1, 1),
           raw_max_temp = None, raw_min_temp = Some 10, raw_precip = Some 5,
           max_temp_c = None, min_temp_c = Some 1, precip_mm = Some (5 / 10),
           precip_cm = Some (5 / 100)\<rparr>"
  by code_simp

lemma decode_well_formed:
  assumes "split_tab (strip line) = [ds, a, b, c]" "strptime_Ymd ds = Some od"
    "field_ok a" "field_ok b" "field_ok c"
  shows "parse_weather_line line =
          Some \<lparr>observation_date = od,
                raw_max_temp = decode_raw a, raw_min_temp = decode_raw b,
                raw_precip = decode_raw c,
                max_temp_c = tenths (decode_raw a), min_temp_c = tenths (decode_raw b),
                precip_mm = tenths (decode_raw c),
                precip_cm = map_option (\<lambda>v. v / 10) (tenths (decode_raw c))\<rparr>"
  using assms
  by (simp add: parse_weather_line_def parse_weather_line_try_def raw_field_ok clean_field_ok)

lemma int_blanks:
  "py_int (CHR 0x1C # ''10'') = None"
  "py_int (''10'' @ [CHR 0x1F]) = None"
  "py_int ('' 10'' @ [CHR 0x0A]) = Some 10"
  "py_int (CHR 0xA0 # ''-0_7'') = Some (- 7)"
  "py_int ''1__0'' = None"
  "strip (CHR 0x1C # ''10'') = ''10''"
  by code_simp+

lemma separator_line_skipped:
  "split_tab (strip separator_line) = [''20200101'', ''5'', CHR 0x1C # ''10'', ''0'']"
  "\<not> field_ok (CHR 0x1C # ''10'')"
  "parse_weather_line separator_line = None"
  by code_simp+

text \<open>
  C5. A line of four tab-separated fields whose date parses and whose numeric fields are
  well formed decodes to the observation in which a sentinel field is null, any other
  field is its integer with clean value a tenth of it, and \<open>precip_cm\<close> is a tenth of
  \<open>precip_mm\<close>; the line \<open>20200101 -9999 10 5\<close> decodes to a null maximum, minimum 1.0
  and precipitation 0.5.
\<close>

theorem decoder_maps_fields:
  "(split_tab (strip line) = [ds, a, b, c] \<and> strptime_Ymd ds = Some od
      \<and> field_ok a \<and> field_ok b \<and> field_ok c
    \<longrightarrow> parse_weather_line line =
          Some \<lparr>observation_date = od,
                raw_max_temp = decode_raw a, raw_min_temp = decode_raw b,
                raw_precip = decode_raw c,
                max_temp_c = tenths (decode_raw a), min_temp_c = tenths (decode_raw b),
                precip_mm = tenths (decode_raw c),
                precip_cm = map_option (\<lambda>v. v / 10) (tenths (decode_raw c))\<rparr>)
   \<and> decode_raw ''-9999'' = None
   \<and> tenths None = None
   \<and> tenths (Some r) = Some (of_int r / 10)
   \<and> parse_weather_line example_line =
     Some \<lparr>observation_date = (2020, 1, 1),
           raw_max_temp = None, raw_min_temp = Some 10, raw_precip = Some 5,
           max_temp_c = None, min_temp_c = Some 1, precip_mm = Some (5 / 10),
           precip_cm = Some (5 / 100)\<rparr>"
proof (intro conjI impI)
  show "decode_raw ''-9999'' = None" by (simp add: decode_raw_def)
  show "tenths None = None" by (simp add: tenths_def)
  show "tenths (Some r) = Some (of_int r / 10)" by (simp add: tenths_def)
  show "parse_weather_line example_line =
     Some \<lparr>observation_date = (2020, 1, 1),
           raw_max_temp = None, raw_min_temp = Some 10, raw_precip = Some 5,
           max_temp_c = None, min_temp_c = Some 1, precip_mm = Some (5 / 10),
           precip_cm = Some (5 / 100)\<rparr>" by (rule example_decodes)
qed (auto intro: decode_well_formed)

theorem decoder_maps_fields_witness:
  "split_tab (strip example_line) = [''20200101'', ''-9999'', ''10'', ''5'']
   \<and> strptime_Ymd ''20200101'' = Some (2020, 1, 1)
   \<and> field_ok ''-9999'' \<and> field_ok ''10'' \<and> field_ok ''5''
   \<and> map_option max_temp_c (parse_weather_line example_line) = Some None
   \<and> map_option min_temp_c (parse_weather_line example_line) = Some (Some 1)
   \<and> map_option precip_mm (parse_weather_line example_line) = Some (Some (1 / 2))"
  using decoder_maps_fields
          [of example_line "''20200101''" "''-9999''" "''10''" "''5''" "(2020, 1, 1)"]
  by code_simp

lemma wrong_field_count_skipped:
  "length (split_tab (strip line)) \<noteq> 4 \<Longrightarrow>
     parse_weather_line line = None \<and> parse_line_etl_runner line = None
     \<and> parse_line_ingest_weather line = Inr None"
  by (auto simp: parse_weather_line_def parse_weather_line_try_def parse_line_etl_runner_def
        parse_line_ingest_weather_def split: list.splits)

lemma guarded_decoders_swallow:
  "parse_weather_line_try line = Inl e \<Longrightarrow> parse_weather_line line = None"
  "split_tab (strip line) = [ds, a, b, c] \<Longrightarrow> decode_parts ds a b c = Inl e \<Longrightarrow>
     parse_line_etl_runner line = None"
  by (simp_all add: parse_weather_line_def parse_line_etl_runner_def)

text \<open>
  C9. The decoder of answers/ingest\_weather.py has no \<open>try\<close>: on a line of four fields
  whose date does not parse, \<open>ValueError\<close> leaves it, where the decoders of
  answers/etl\_runner.py and src/ingest.py return \<open>None\<close>.
\<close>

theorem bulk_decoder_raises:
  "parse_line_ingest_weather dashed_line = Inl ValueError
   \<and> parse_line_etl_runner dashed_line = None
   \<and> parse_weather_line dashed_line = None"
  by code_simp

section \<open>The fact store and re-ingestion\<close>

lemma set_columns_all: "set_columns old f = f"
  by (simp add: set_columns_def)

lemma stored_check: "stored d f = Inr row \<Longrightarrow> check_constraints row = check_constraints f"
  by (cases d) (auto simp: stored_def check_constraints_def split: if_splits sum.splits)

lemma upsert_sql:
  "d \<noteq> OtherDialect \<Longrightarrow>
   upsert_weather_fact d f tbl =
     (case stored d f of
        Inl e \<Rightarrow> Inl e
      | Inr row \<Rightarrow>
          if check_constraints row then Inr (tbl(key_of row \<mapsto> row)) else Inl IntegrityError)"
  by (cases d)
     (auto simp: upsert_weather_fact_def sql_upsert_def set_columns_all
        split: sum.splits option.splits)

lemma checked_sqlite_int:
  "check_constraints f \<Longrightarrow>
   sqlite_int_ok (raw_max_temp f) \<and> sqlite_int_ok (raw_min_temp f) \<and> sqlite_int_ok (raw_precip f)"
  by (auto simp: check_constraints_def ck_raw_max_temp_def ck_raw_min_temp_def ck_raw_precip_def
        sqlite_int_ok_def split: option.splits)

lemma checked_smallint:
  "check_constraints f \<Longrightarrow>
   smallint_ok (raw_max_temp f) \<and> smallint_ok (raw_min_temp f) \<and> smallint_ok (raw_precip f)"
  by (auto simp: check_constraints_def ck_raw_max_temp_def ck_raw_min_temp_def ck_raw_precip_def
        smallint_ok_def split: option.splits)

lemma stored_fit: "check_constraints f \<Longrightarrow> strings_fit d f \<Longrightarrow> stored d f = Inr f"
  using checked_sqlite_int [of f] checked_smallint [of f]
  by (cases d) (simp_all add: stored_def strings_fit_def pg_varchar_def)

lemma upsert_admitted:
  "check_constraints f \<Longrightarrow> strings_fit d f \<Longrightarrow>
   upsert_weather_fact d f tbl = Inr (tbl(key_of f \<mapsto> f))"
proof (cases "d = OtherDialect")
  case True
  assume "check_constraints f"
  then show ?thesis
    unfolding True
    by (auto simp: upsert_weather_fact_def sql_insert_def sql_update_def set_columns_all
        split: option.splits)
next
  case False
  assume "check_constraints f" "strings_fit d f"
  then show ?thesis by (simp add: upsert_sql [OF False] stored_fit)
qed

lemma upsert_rejected:
  "\<not> check_constraints f \<Longrightarrow> d \<noteq> OtherDialect \<Longrightarrow>
   upsert_weather_fact d f tbl = Inl (rejection d f)"
  by (auto simp: upsert_sql rejection_def stored_check split: sum.splits)

lemma rejection_sqlite:
  "rejection SQLite f =
     (if sqlite_int_ok (raw_max_temp f) \<and> sqlite_int_ok (raw_min_temp f)
         \<and> sqlite_int_ok (raw_precip f)
      then IntegrityError else OverflowError)"
  by (simp add: rejection_def stored_def)

lemma rejection_postgresql:
  "rejection PostgreSQL f = IntegrityError \<or> rejection PostgreSQL f = DataError"
  by (auto simp: rejection_def stored_def pg_varchar_def split: sum.splits if_splits)

lemma build_fact_time:
  "build_fact sid src run_id t2 p = (build_fact sid src run_id t1 p)\<lparr>ingested_at := t2\<rparr>"
  by (simp add: build_fact_def Let_def)

lemma stored_time:
  "stored d (f\<lparr>ingested_at := t\<rparr>) = map_sum id (\<lambda>r. r\<lparr>ingested_at := t\<rparr>) (stored d f)"
  by (cases d) (simp_all add: stored_def split: sum.splits)

lemma stored_build_fact_time:
  "stored d (build_fact sid src run_id t2 p)
     = map_sum id (\<lambda>r. r\<lparr>ingested_at := t2\<rparr>) (stored d (build_fact sid src run_id t1 p))"
  by (subst build_fact_time [of sid src run_id t2 p t1]) (rule stored_time)

lemma ensure_station_fit:
  "d \<noteq> PostgreSQL \<or> length sid \<le> 20 \<Longrightarrow>
   ensure_station d sid sts =
     Inr (case sts sid of
            Some st \<Rightarrow> sts
          | None \<Rightarrow> sts(sid \<mapsto> new_station (''Station '' @ sid)))"
  by (cases d) (auto simp: ensure_station_def pg_varchar_def split: option.splits)

lemma upsert_rejected_other:
  "\<not> check_constraints f \<Longrightarrow>
     upsert_weather_fact OtherDialect f tbl =
       (if tbl (key_of f) = None then Inr tbl else Inl IntegrityError)"
  by (auto simp: upsert_weather_fact_def sql_insert_def sql_update_def set_columns_all
      split: option.splits)

lemma check_build_fact_time:
  "check_constraints (build_fact sid src run_id t1 p) = check_constraints (build_fact sid src run_id t2 p)"
  by (simp add: check_constraints_def build_fact_def Let_def)

lemma key_build_fact: "key_of (build_fact sid src run_id now p) = (sid, observation_date p, src)"
  by (simp add: key_of_def build_fact_def Let_def)

lemma strings_fit_build_fact:
  "strings_fit d (build_fact sid src run_id now p)
     \<longleftrightarrow> d \<noteq> PostgreSQL \<or> (length sid \<le> 20 \<and> length src \<le> 50 \<and> length run_id \<le> 36)"
  by (simp add: strings_fit_def build_fact_def Let_def)

lemma erase_build_fact:
  "without_ingested_at (build_fact sid src run_id t1 p) = without_ingested_at (build_fact sid src run_id t2 p)"
  by (simp add: without_ingested_at_def build_fact_def Let_def)

lemma erase_time_upd: "erase_time (t(k \<mapsto> f)) = (erase_time t)(k \<mapsto> without_ingested_at f)"
  by (auto simp: erase_time_def)

lemma erase_time_add: "erase_time (t ++ u) = erase_time t ++ erase_time u"
  by (auto simp: erase_time_def map_add_def split: option.splits)

lemma ingest_lines_frame:
  "d \<noteq> OtherDialect \<Longrightarrow>
   ingest_lines d c sid src run_id ls (t ++ u) n =
     (fst (ingest_lines d c sid src run_id ls u n), t ++ snd (ingest_lines d c sid src run_id ls u n))"
proof (induction ls arbitrary: u n)
  case Nil
  then show ?case by simp
next
  case (Cons line rest)
  show ?case
  proof (cases "strip line \<noteq> [] \<and> parse_weather_line line \<noteq> None")
    case False
    then show ?thesis using Cons by auto
  next
    case True
    then obtain p where p: "parse_weather_line line = Some p" by auto
    let ?f = "build_fact sid src run_id (c n) p"
    show ?thesis
    proof (cases "stored d ?f")
      case (Inl e)
      then show ?thesis using Cons.prems p \<open>strip line \<noteq> [] \<and> _\<close>
        by (simp add: upsert_sql)
    next
      case (Inr row)
      show ?thesis
      proof (cases "check_constraints row")
        case True
        then show ?thesis using Cons Inr p \<open>strip line \<noteq> [] \<and> _\<close>
          by (simp add: upsert_sql flip: map_add_upd)
      next
        case False
        then show ?thesis using Cons.prems Inr p \<open>strip line \<noteq> [] \<and> _\<close>
          by (simp add: upsert_sql)
      qed
    qed
  qed
qed

lemma ingest_lines_clock:
  "d \<noteq> OtherDialect \<Longrightarrow> erase_time t1 = erase_time t2 \<Longrightarrow>
   fst (ingest_lines d c1 sid src run_id ls t1 n) = fst (ingest_lines d c2 sid src run_id ls t2 n)
   \<and> erase_time (snd (ingest_lines d c1 sid src run_id ls t1 n))
       = erase_time (snd (ingest_lines d c2 sid src run_id ls t2 n))"
proof (induction ls arbitrary: t1 t2 n)
  case Nil
  then show ?case by simp
next
  case (Cons line rest)
  show ?case
  proof (cases "strip line \<noteq> [] \<and> parse_weather_line line \<noteq> None")
    case False
    then show ?thesis using Cons by auto
  next
    case True
    then obtain p where p: "parse_weather_line line = Some p" by auto
    let ?f1 = "build_fact sid src run_id (c1 n) p"
    let ?f2 = "build_fact sid src run_id (c2 n) p"
    have st: "stored d ?f2 = map_sum id (\<lambda>r. r\<lparr>ingested_at := c2 n\<rparr>) (stored d ?f1)"
      by (rule stored_build_fact_time)
    show ?thesis
    proof (cases "stored d ?f1")
      case (Inl e)
      then have "stored d ?f2 = Inl e" using st by simp
      then show ?thesis using Inl Cons.prems p \<open>strip line \<noteq> [] \<and> _\<close>
        by (simp add: upsert_sql)
    next
      case (Inr r1)
      let ?r2 = "r1\<lparr>ingested_at := c2 n\<rparr>"
      have r2: "stored d ?f2 = Inr ?r2" using st Inr by simp
      have ck: "check_constraints ?r2 = check_constraints r1"
        by (simp add: check_constraints_def)
      have key: "key_of ?r2 = key_of r1" by (simp add: key_of_def)
      show ?thesis
      proof (cases "check_constraints r1")
        case True
        have "erase_time (t1(key_of r1 \<mapsto> r1)) = erase_time (t2(key_of ?r2 \<mapsto> ?r2))"
          using Cons.prems(2) by (simp add: erase_time_upd key without_ingested_at_def)
        from Cons.IH [OF Cons.prems(1) this, of "Suc n"]
        have IH: "fst (ingest_lines d c1 sid src run_id rest (t1(key_of r1 \<mapsto> r1)) (Suc n))
                    = fst (ingest_lines d c2 sid src run_id rest (t2(key_of ?r2 \<mapsto> ?r2)) (Suc n))
                  \<and> erase_time (snd (ingest_lines d c1 sid src run_id rest (t1(key_of r1 \<mapsto> r1)) (Suc n)))
                    = erase_time (snd (ingest_lines d c2 sid src run_id rest (t2(key_of ?r2 \<mapsto> ?r2)) (Suc n)))" .
        have s1: "ingest_lines d c1 sid src run_id (line # rest) t1 n
                    = ingest_lines d c1 sid src run_id rest (t1(key_of r1 \<mapsto> r1)) (Suc n)"
          using True Inr Cons.prems(1) p \<open>strip line \<noteq> [] \<and> _\<close> by (simp add: upsert_sql)
        have s2: "ingest_lines d c2 sid src run_id (line # rest) t2 n
                    = ingest_lines d c2 sid src run_id rest (t2(key_of ?r2 \<mapsto> ?r2)) (Suc n)"
          using True ck r2 Cons.prems(1) p \<open>strip line \<noteq> [] \<and> _\<close>
          by (simp add: upsert_sql del: key)
        show ?thesis unfolding s1 s2 by (rule IH)
      next
        case False
        then show ?thesis using Inr r2 ck Cons.prems p \<open>strip line \<noteq> [] \<and> _\<close>
          by (simp add: upsert_sql)
      qed
    qed
  qed
qed

lemma stations_fit_Cons:
  "stations_fit d ((fn, ls) # files) \<longleftrightarrow>
     (d \<noteq> PostgreSQL \<or> length (replace_txt fn) \<le> 20) \<and> stations_fit d files"
  by (auto simp: stations_fit_def)

lemma ingest_files_frame:
  "d \<noteq> OtherDialect \<Longrightarrow> stations_fit d files \<Longrightarrow>
   fst (ingest_files d c src run_id files \<lparr>stations = s1, weather_facts = t ++ u\<rparr> n)
     = fst (ingest_files d c src run_id files \<lparr>stations = s2, weather_facts = u\<rparr> n)
   \<and> weather_facts (snd (ingest_files d c src run_id files \<lparr>stations = s1, weather_facts = t ++ u\<rparr> n))
     = t ++ weather_facts (snd (ingest_files d c src run_id files \<lparr>stations = s2, weather_facts = u\<rparr> n))"
proof (induction files arbitrary: s1 s2 u n)
  case Nil
  then show ?case by simp
next
  case (Cons entry files)
  obtain fn ls where entry: "entry = (fn, ls)" by (cases entry)
  let ?sid = "replace_txt fn"
  have fit: "d \<noteq> PostgreSQL \<or> length ?sid \<le> 20" and rest: "stations_fit d files"
    using Cons.prems(2) unfolding entry stations_fit_Cons by simp_all
  obtain x1 where x1: "ensure_station d ?sid s1 = Inr x1"
    using ensure_station_fit [OF fit] by blast
  obtain x2 where x2: "ensure_station d ?sid s2 = Inr x2"
    using ensure_station_fit [OF fit] by blast
  obtain r u' where run: "ingest_lines d c ?sid src run_id ls u n = (r, u')"
    by (cases "ingest_lines d c ?sid src run_id ls u n")
  have fr: "ingest_lines d c ?sid src run_id ls (t ++ u) n = (r, t ++ u')"
    using ingest_lines_frame [OF Cons.prems(1), where c = c and src = src and run_id = run_id and sid = ?sid and ls = ls and t = t and u = u and n = n] run by simp
  show ?case
  proof (cases r)
    case (Inl e)
    then show ?thesis using entry run fr x1 x2 by (simp add: Let_def)
  next
    case (Inr m)
    then show ?thesis
      using entry run fr x1 x2 Cons.IH [OF Cons.prems(1) rest] by (simp add: Let_def)
  qed
qed

lemma ingest_files_clock:
  "d \<noteq> OtherDialect \<Longrightarrow> stations_fit d files \<Longrightarrow> erase_time t1 = erase_time t2 \<Longrightarrow>
   fst (ingest_files d c1 src run_id files \<lparr>stations = s1, weather_facts = t1\<rparr> n)
     = fst (ingest_files d c2 src run_id files \<lparr>stations = s2, weather_facts = t2\<rparr> n)
   \<and> erase_time (weather_facts (snd (ingest_files d c1 src run_id files \<lparr>stations = s1, weather_facts = t1\<rparr> n)))
     = erase_time (weather_facts (snd (ingest_files d c2 src run_id files \<lparr>stations = s2, weather_facts = t2\<rparr> n)))"
proof (induction files arbitrary: s1 s2 t1 t2 n)
  case Nil
  then show ?case by simp
next
  case (Cons entry files)
  obtain fn ls where entry: "entry = (fn, ls)" by (cases entry)
  let ?sid = "replace_txt fn"
  have fit: "d \<noteq> PostgreSQL \<or> length ?sid \<le> 20" and rest: "stations_fit d files"
    using Cons.prems(2) unfolding entry stations_fit_Cons by simp_all
  obtain x1 where x1: "ensure_station d ?sid s1 = Inr x1"
    using ensure_station_fit [OF fit] by blast
  obtain x2 where x2: "ensure_station d ?sid s2 = Inr x2"
    using ensure_station_fit [OF fit] by blast
  obtain r1 u1 where run1: "ingest_lines d c1 ?sid src run_id ls t1 n = (r1, u1)"
    by (cases "ingest_lines d c1 ?sid src run_id ls t1 n")
  obtain r2 u2 where run2: "ingest_lines d c2 ?sid src run_id ls t2 n = (r2, u2)"
    by (cases "ingest_lines d c2 ?sid src run_id ls t2 n")
  have same: "r1 = r2" "erase_time u1 = erase_time u2"
    using ingest_lines_clock [OF Cons.prems(1,3), where ?c1.0 = c1 and ?c2.0 = c2 and src = src and run_id = run_id and sid = ?sid and ls = ls and n = n] run1 run2 by simp_all
  show ?case
  proof (cases r1)
    case (Inl e)
    then show ?thesis using entry run1 run2 same x1 x2 by (simp add: Let_def)
  next
    case (Inr m)
    then show ?thesis
      using entry run1 run2 same x1 x2 Cons.IH [OF Cons.prems(1) rest same(2)]
      by (simp add: Let_def)
  qed
qed

lemma map_add_twice: "(t ++ m) ++ m = t ++ m"
  by (rule ext) (simp add: map_add_def split: option.splits)

lemma stations_fit_filter: "stations_fit d files \<Longrightarrow> stations_fit d (filter P files)"
  by (auto simp: stations_fit_def list_all_iff)

lemma reingestion_sql_dialects:
  assumes "d \<noteq> OtherDialect" and fit: "stations_fit d dir"
  shows "erase_time (weather_facts (snd (ingest_weather_data d c2 dir src run_id
                      (snd (ingest_weather_data d c1 dir src run_id db)))))
         = erase_time (weather_facts (snd (ingest_weather_data d c1 dir src run_id db)))
       \<and> fst (ingest_weather_data d c2 dir src run_id (snd (ingest_weather_data d c1 dir src run_id db)))
         = fst (ingest_weather_data d c1 dir src run_id db)"
proof -
  let ?files = "filter (\<lambda>(f, ls). endswith_txt f) dir"
  let ?run = "\<lambda>c db. ingest_files d c src run_id ?files db 0"
  have fits: "stations_fit d ?files" using fit by (rule stations_fit_filter)
  obtain s t where db: "db = \<lparr>stations = s, weather_facts = t\<rparr>"
    by (cases db) simp
  obtain s' t' where db1: "snd (?run c1 db) = \<lparr>stations = s', weather_facts = t'\<rparr>"
    by (cases "snd (?run c1 db)") simp
  let ?e = "\<lparr>stations = s, weather_facts = Map.empty\<rparr>"
  let ?m = "weather_facts (snd (?run c1 ?e))"
  have first: "t' = t ++ ?m" and r1: "fst (?run c1 db) = fst (?run c1 ?e)"
    using ingest_files_frame [OF assms(1) fits, where c = c1 and src = src and run_id = run_id
        and ?s1.0 = s and t = t and u = Map.empty and ?s2.0 = s and n = 0]
      db db1 by simp_all
  have again: "weather_facts (snd (?run c1 (snd (?run c1 db)))) = t' ++ ?m"
    and r2: "fst (?run c1 (snd (?run c1 db))) = fst (?run c1 ?e)"
    using ingest_files_frame [OF assms(1) fits, where c = c1 and src = src and run_id = run_id
        and ?s1.0 = s' and t = t' and u = Map.empty and ?s2.0 = s and n = 0]
      db1 by simp_all
  have idem: "weather_facts (snd (?run c1 (snd (?run c1 db)))) = t'"
    unfolding again by (subst (1 2) first) (rule map_add_twice)
  have clk: "fst (?run c2 (snd (?run c1 db))) = fst (?run c1 (snd (?run c1 db)))
            \<and> erase_time (weather_facts (snd (?run c2 (snd (?run c1 db)))))
              = erase_time (weather_facts (snd (?run c1 (snd (?run c1 db)))))"
    using ingest_files_clock [OF assms(1) fits, where ?c1.0 = c2 and ?c2.0 = c1 and src = src
        and run_id = run_id and ?s1.0 = s' and ?s2.0 = s' and ?t1.0 = t' and ?t2.0 = t' and n = 0]
    unfolding db1 by simp
  show ?thesis
    unfolding ingest_weather_data_def using clk idem r1 r2 db1 by simp
qed

lemma check_build_fact: "check_constraints (build_fact sid src run_id now p) = raw_in_range p"
  by (simp add: check_constraints_def raw_in_range_def build_fact_def Let_def)

lemma ingest_lines_any_dialect:
  "lines_in_range ls \<Longrightarrow>
   ingest_lines OtherDialect c sid src run_id ls t n = ingest_lines SQLite c sid src run_id ls t n"
proof (induction ls arbitrary: t n)
  case Nil
  then show ?case by simp
next
  case (Cons line rest)
  then have rest: "lines_in_range rest" by (simp add: lines_in_range_def)
  show ?case
  proof (cases "parse_weather_line line")
    case None
    then show ?thesis using Cons.IH [OF rest] by simp
  next
    case (Some p)
    then have "raw_in_range p" using Cons.prems by (simp add: lines_in_range_def)
    then have ck: "check_constraints (build_fact sid src run_id (c n) p)"
      by (simp add: check_build_fact)
    let ?f = "build_fact sid src run_id (c n) p"
    have step: "ingest_lines d' c sid src run_id (line # rest) t n =
            (if strip line \<noteq> [] then ingest_lines d' c sid src run_id rest (t(key_of ?f \<mapsto> ?f)) (Suc n)
             else ingest_lines d' c sid src run_id rest t n)" if "d' \<noteq> PostgreSQL" for d'
      using Some that by (simp add: upsert_admitted [OF ck] strings_fit_def)
    have s1: "ingest_lines OtherDialect c sid src run_id (line # rest) t n =
            (if strip line \<noteq> []
             then ingest_lines OtherDialect c sid src run_id rest (t(key_of ?f \<mapsto> ?f)) (Suc n)
             else ingest_lines OtherDialect c sid src run_id rest t n)"
      by (rule step) simp
    have s2: "ingest_lines SQLite c sid src run_id (line # rest) t n =
            (if strip line \<noteq> []
             then ingest_lines SQLite c sid src run_id rest (t(key_of ?f \<mapsto> ?f)) (Suc n)
             else ingest_lines SQLite c sid src run_id rest t n)"
      by (rule step) simp
    show ?thesis
      unfolding s1 s2 by (simp only: Cons.IH [OF rest])
  qed
qed

lemma ensure_station_other:
  "ensure_station OtherDialect sid sts = ensure_station SQLite sid sts"
  by (simp add: ensure_station_def split: option.splits)

lemma ingest_files_any_dialect:
  "files_in_range files \<Longrightarrow>
   ingest_files OtherDialect c src run_id files db n = ingest_files SQLite c src run_id files db n"
proof (induction files arbitrary: db n)
  case Nil
  then show ?case by simp
next
  case (Cons entry files)
  obtain fn ls where entry: "entry = (fn, ls)" by (cases entry)
  have ls: "lines_in_range ls" and rest: "files_in_range files"
    using Cons.prems entry by (simp_all add: files_in_range_def)
  show ?case
    using entry Cons.IH [OF rest] ingest_lines_any_dialect [OF ls]
    by (simp add: Let_def ensure_station_other split: sum.splits prod.splits)
qed

lemma ingest_weather_data_any_dialect:
  "files_in_range dir \<Longrightarrow>
   ingest_weather_data OtherDialect c dir src run_id db
     = ingest_weather_data SQLite c dir src run_id db"
  unfolding ingest_weather_data_def
  by (rule ingest_files_any_dialect) (simp add: files_in_range_def list_all_iff)

lemma parse_good_line:
  "parse_weather_line good_line =
     Some \<lparr>observation_date = (2020, 1, 2),
           raw_max_temp = Some 100, raw_min_temp = Some 50, raw_precip = Some 0,
           max_temp_c = Some 10, min_temp_c = Some 5, precip_mm = Some 0,
           precip_cm = Some 0\<rparr>"
  by code_simp

lemma parse_bad_line:
  "parse_weather_line bad_line =
     Some \<lparr>observation_date = (2020, 1, 1),
           raw_max_temp = Some 99999, raw_min_temp = Some 10, raw_precip = Some 5,
           max_temp_c = Some (99999 / 10), min_temp_c = Some 1, precip_mm = Some (5 / 10),
           precip_cm = Some (5 / 100)\<rparr>"
  by code_simp

lemma lines_not_blank: "strip good_line \<noteq> []" "strip bad_line \<noteq> []"
  by code_simp+

lemma station_file: "endswith_txt ''S.txt''" "replace_txt ''S.txt'' = ''S''"
  by code_simp+

lemma raw_build_fact:
  "raw_max_temp (build_fact sid src run_id now p) = raw_max_temp p"
  "raw_min_temp (build_fact sid src run_id now p) = raw_min_temp p"
  "raw_precip (build_fact sid src run_id now p) = raw_precip p"
  by (simp_all add: build_fact_def Let_def)

lemmas run_simps =
  ingest_weather_data_def one_file_def two_lines_def empty_db_def station_file
  lines_not_blank parse_good_line parse_bad_line Let_def
  upsert_admitted upsert_rejected check_build_fact raw_in_range_def
  ck_raw_max_temp_def ck_raw_min_temp_def ck_raw_precip_def key_build_fact
  strings_fit_def ensure_station_def rejection_sqlite raw_build_fact sqlite_int_ok_def

lemma ingested_at_build_fact: "ingested_at (build_fact sid src run_id now p) = now"
  by (simp add: build_fact_def Let_def)

lemma good_line_in_range: "files_in_range one_file"
  by (simp add: files_in_range_def lines_in_range_def one_file_def parse_good_line
        raw_in_range_def ck_raw_max_temp_def ck_raw_min_temp_def ck_raw_precip_def)

text \<open>
  C2, as amended. Ingesting a directory a second time leaves every row of the fact table
  equal in every column but \<open>ingested_at\<close>, which the second pass sets to its own clock,
  and returns what the first pass returned: on the sqlite branch for every directory, on
  the postgresql branch when the station ids fit their column, on the fallback branch when
  every decoded line is within the CHECK ranges.
\<close>

theorem reingestion_equal_but_time:
  assumes "stations_fit d dir" and "d \<noteq> OtherDialect \<or> files_in_range dir"
  shows "erase_time (weather_facts (snd (ingest_weather_data d c2 dir src run_id
                      (snd (ingest_weather_data d c1 dir src run_id db)))))
         = erase_time (weather_facts (snd (ingest_weather_data d c1 dir src run_id db)))
       \<and> fst (ingest_weather_data d c2 dir src run_id (snd (ingest_weather_data d c1 dir src run_id db)))
         = fst (ingest_weather_data d c1 dir src run_id db)"
proof (cases "d = OtherDialect")
  case False
  then show ?thesis using assms(1) by (rule reingestion_sql_dialects)
next
  case True
  then have "files_in_range dir" using assms(2) by simp
  then have eq: "ingest_weather_data OtherDialect c dir src run_id db'
                   = ingest_weather_data SQLite c dir src run_id db'" for c db'
    by (rule ingest_weather_data_any_dialect)
  show ?thesis
    unfolding True eq by (rule reingestion_sql_dialects) (simp_all add: stations_fit_def)
qed

theorem reingestion_equal_but_time_witness:
  "SQLite \<noteq> OtherDialect
   \<and> stations_fit SQLite one_file
   \<and> files_in_range one_file
   \<and> map_option without_ingested_at
       (weather_facts (snd (ingest_weather_data SQLite (\<lambda>n. 2) one_file ''manual'' ''r''
           (snd (ingest_weather_data SQLite (\<lambda>n. 1) one_file ''manual'' ''r'' empty_db))))
         (''S'', (2020, 1, 2), ''manual''))
     = map_option without_ingested_at
       (weather_facts (snd (ingest_weather_data SQLite (\<lambda>n. 1) one_file ''manual'' ''r'' empty_db))
         (''S'', (2020, 1, 2), ''manual''))
   \<and> map_option raw_max_temp
       (weather_facts (snd (ingest_weather_data SQLite (\<lambda>n. 1) one_file ''manual'' ''r'' empty_db))
         (''S'', (2020, 1, 2), ''manual'')) = Some (Some 100)"
proof -
  have "erase_time (weather_facts (snd (ingest_weather_data SQLite (\<lambda>n. 2) one_file ''manual'' ''r''
           (snd (ingest_weather_data SQLite (\<lambda>n. 1) one_file ''manual'' ''r'' empty_db)))))
         (''S'', (2020, 1, 2), ''manual'')
      = erase_time (weather_facts (snd (ingest_weather_data SQLite (\<lambda>n. 1) one_file ''manual'' ''r'' empty_db)))
         (''S'', (2020, 1, 2), ''manual'')"
    using reingestion_equal_but_time [of SQLite one_file "\<lambda>n. 2" "''manual''" "''r''" "\<lambda>n. 1" empty_db]
    by (simp add: stations_fit_def)
  moreover have "map_option raw_max_temp
       (weather_facts (snd (ingest_weather_data SQLite (\<lambda>n. 1) one_file ''manual'' ''r'' empty_db))
         (''S'', (2020, 1, 2), ''manual'')) = Some (Some 100)"
    by (simp add: run_simps)
  ultimately show ?thesis
    using good_line_in_range by (simp add: erase_time_def stations_fit_def)
qed

text \<open>
  The claim as stated fails on \<open>ingested_at\<close>: with the clock at 1 in the first pass and
  at 2 in the second, the one row of the file holds 1 after the first pass and 2 after the
  second.
\<close>

theorem reingestion_changes_ingested_at:
  "map_option ingested_at
     (weather_facts (snd (ingest_weather_data SQLite (\<lambda>n. 1) one_file ''manual'' ''r'' empty_db))
        (''S'', (2020, 1, 2), ''manual'')) = Some 1
   \<and> map_option ingested_at
     (weather_facts (snd (ingest_weather_data SQLite (\<lambda>n. 2) one_file ''manual'' ''r''
         (snd (ingest_weather_data SQLite (\<lambda>n. 1) one_file ''manual'' ''r'' empty_db))))
        (''S'', (2020, 1, 2), ''manual'')) = Some 2"
  by (simp add: run_simps ingested_at_build_fact)

section \<open>Constraint violations\<close>

lemma upsert_keeps_checked:
  "all_checked t \<Longrightarrow> upsert_weather_fact d f t = Inr t' \<Longrightarrow> all_checked t'"
  by (cases d)
     (auto simp: all_checked_def upsert_weather_fact_def sql_upsert_def sql_insert_def
        sql_update_def set_columns_all split: if_splits option.splits sum.splits)

lemma ingest_lines_keeps_checked:
  "all_checked t \<Longrightarrow> all_checked (snd (ingest_lines d c sid src run_id ls t n))"
proof (induction ls arbitrary: t n)
  case Nil
  then show ?case by simp
next
  case (Cons line rest)
  show ?case
    using Cons.prems Cons.IH upsert_keeps_checked [OF Cons.prems]
    by (auto split: option.splits sum.splits)
qed

lemma ingest_files_keeps_checked:
  "all_checked (weather_facts db) \<Longrightarrow>
   all_checked (weather_facts (snd (ingest_files d c src run_id files db n)))"
proof (induction files arbitrary: db n)
  case Nil
  then show ?case by simp
next
  case (Cons entry files)
  obtain fn ls where entry: "entry = (fn, ls)" by (cases entry)
  show ?case
  proof (cases "ensure_station d (replace_txt fn) (stations db)")
    case (Inl e)
    then show ?thesis using entry Cons.prems by (simp add: Let_def)
  next
    case (Inr sts)
    obtain r t where run:
      "ingest_lines d c (replace_txt fn) src run_id ls (weather_facts db) n = (r, t)"
      by (cases "ingest_lines d c (replace_txt fn) src run_id ls (weather_facts db) n")
    have t: "all_checked t"
      using ingest_lines_keeps_checked [OF Cons.prems, of d c "replace_txt fn" src run_id ls n] run
      by simp
    show ?thesis
      using entry run t Inr Cons.IH by (cases r) (simp_all add: Let_def)
  qed
qed

lemma violation_stops_lines:
  assumes "d \<noteq> OtherDialect" "strip line \<noteq> []" "parse_weather_line line = Some p"
    "\<not> raw_in_range p"
  shows "ingest_lines d c sid src run_id (line # rest) tbl n
           = (Inl (rejection d (build_fact sid src run_id (c n) p)), tbl)"
  using assms by (simp add: upsert_rejected check_build_fact)

lemma violation_stops_files:
  assumes "d \<noteq> OtherDialect" "strip line \<noteq> []" "parse_weather_line line = Some p"
    "\<not> raw_in_range p"
  shows "isl (fst (ingest_files d c src run_id ((fn, line # rest) # files) db n))"
    and "weather_facts (snd (ingest_files d c src run_id ((fn, line # rest) # files) db n))
           = weather_facts db"
proof -
  have run: "ingest_lines d c (replace_txt fn) src run_id (line # rest) (weather_facts db) n
               = (Inl (rejection d (build_fact (replace_txt fn) src run_id (c n) p)),
                  weather_facts db)"
    by (rule violation_stops_lines [OF assms])
  show "isl (fst (ingest_files d c src run_id ((fn, line # rest) # files) db n))"
    using run by (cases "ensure_station d (replace_txt fn) (stations db)") (simp_all add: Let_def)
  show "weather_facts (snd (ingest_files d c src run_id ((fn, line # rest) # files) db n))
           = weather_facts db"
    using run by (cases "ensure_station d (replace_txt fn) (stations db)") (simp_all add: Let_def)
qed

text \<open>
  C4, as amended. A fact with a raw value outside the CHECK ranges is refused on the
  sqlite and postgresql branches: with \<open>IntegrityError\<close>, or before the constraint is
  looked at with \<open>OverflowError\<close> on sqlite for a value beyond 64 bits and with
  \<open>DataError\<close> on postgresql. On every branch a table whose rows satisfy the constraints
  keeps that property through a whole run, so such a row is never persisted. On those two
  branches the exception is not caught per line: the loop over the lines stops at that line
  with the table unchanged, and the run ends there with an exception, the rest of the file
  and the later files unread.
\<close>

theorem violation_rejected_and_run_aborted:
  "(\<not> raw_in_range p \<and> d \<noteq> OtherDialect
      \<longrightarrow> upsert_weather_fact d (build_fact sid src run_id now p) tbl
            = Inl (rejection d (build_fact sid src run_id now p)))
   \<and> rejection SQLite f
       = (if sqlite_int_ok (raw_max_temp f) \<and> sqlite_int_ok (raw_min_temp f)
             \<and> sqlite_int_ok (raw_precip f)
          then IntegrityError else OverflowError)
   \<and> (rejection PostgreSQL f = IntegrityError \<or> rejection PostgreSQL f = DataError)
   \<and> (all_checked (weather_facts db)
      \<longrightarrow> all_checked (weather_facts (snd (ingest_weather_data d c dir src run_id db))))
   \<and> (d \<noteq> OtherDialect \<and> strip line \<noteq> [] \<and> parse_weather_line line = Some p
        \<and> \<not> raw_in_range p
      \<longrightarrow> ingest_lines d c sid src run_id (line # rest) tbl n
            = (Inl (rejection d (build_fact sid src run_id (c n) p)), tbl)
        \<and> isl (fst (ingest_files d c src run_id ((fn, line # rest) # files) db n))
        \<and> weather_facts (snd (ingest_files d c src run_id ((fn, line # rest) # files) db n))
            = weather_facts db)"
proof (intro conjI impI)
  assume "\<not> raw_in_range p \<and> d \<noteq> OtherDialect"
  then show "upsert_weather_fact d (build_fact sid src run_id now p) tbl
            = Inl (rejection d (build_fact sid src run_id now p))"
    by (simp add: upsert_rejected check_build_fact)
next
  show "rejection SQLite f
       = (if sqlite_int_ok (raw_max_temp f) \<and> sqlite_int_ok (raw_min_temp f)
             \<and> sqlite_int_ok (raw_precip f)
          then IntegrityError else OverflowError)"
    by (rule rejection_sqlite)
next
  show "rejection PostgreSQL f = IntegrityError \<or> rejection PostgreSQL f = DataError"
    by (rule rejection_postgresql)
next
  assume "all_checked (weather_facts db)"
  then show "all_checked (weather_facts (snd (ingest_weather_data d c dir src run_id db)))"
    unfolding ingest_weather_data_def by (rule ingest_files_keeps_checked)
next
  assume a: "d \<noteq> OtherDialect \<and> strip line \<noteq> [] \<and> parse_weather_line line = Some p
        \<and> \<not> raw_in_range p"
  then have d: "d \<noteq> OtherDialect" and s: "strip line \<noteq> []"
    and p: "parse_weather_line line = Some p" and r: "\<not> raw_in_range p"
    by simp_all
  show "ingest_lines d c sid src run_id (line # rest) tbl n
          = (Inl (rejection d (build_fact sid src run_id (c n) p)), tbl)"
    by (rule violation_stops_lines [OF d s p r])
  show "isl (fst (ingest_files d c src run_id ((fn, line # rest) # files) db n))"
    by (rule violation_stops_files(1) [OF d s p r])
  show "weather_facts (snd (ingest_files d c src run_id ((fn, line # rest) # files) db n))
            = weather_facts db"
    by (rule violation_stops_files(2) [OF d s p r])
qed

theorem violation_rejected_and_run_aborted_witness:
  "SQLite \<noteq> OtherDialect
   \<and> strip bad_line \<noteq> []
   \<and> map_option raw_in_range (parse_weather_line bad_line) = Some False
   \<and> all_checked (weather_facts empty_db)
   \<and> ingest_lines SQLite (\<lambda>n. 0) ''S'' ''manual'' ''r'' [bad_line, good_line] Map.empty 0
       = (Inl IntegrityError, Map.empty)
   \<and> fst (ingest_files SQLite (\<lambda>n. 0) ''manual'' ''r'' two_lines empty_db 0)
       = Inl IntegrityError
   \<and> all_checked
         (weather_facts (snd (ingest_weather_data SQLite (\<lambda>n. 0) two_lines ''manual'' ''r''
            empty_db)))"
  using violation_rejected_and_run_aborted
          [where d = SQLite and line = bad_line and rest = "[good_line]" and c = "\<lambda>n. 0"
             and sid = "''S''" and src = "''manual''" and run_id = "''r''" and tbl = Map.empty
             and n = 0 and db = empty_db and dir = two_lines and fn = "''S.txt''"
             and files = "[]"
             and p = "\<lparr>observation_date = (2020, 1, 1),
                     raw_max_temp = Some 99999, raw_min_temp = Some 10, raw_precip = Some 5,
                     max_temp_c = Some (99999 / 10), min_temp_c = Some 1,
                     precip_mm = Some (5 / 10), precip_cm = Some (5 / 100)\<rparr>"]
  by (simp add: run_simps all_checked_def)

text \<open>
  The claim as stated fails on the sqlite branch: of a file whose first line carries the
  raw maximum 99999 and whose second line is within range, nothing is ingested; the run
  ends with \<open>IntegrityError\<close> and the second line has no row.
\<close>

theorem violation_aborts_run:
  "fst (ingest_weather_data SQLite (\<lambda>n. 0) two_lines ''manual'' ''r'' empty_db)
     = Inl IntegrityError
   \<and> weather_facts (snd (ingest_weather_data SQLite (\<lambda>n. 0) two_lines ''manual'' ''r'' empty_db))
       (''S'', (2020, 1, 2), ''manual'') = None
   \<and> map_option raw_in_range (parse_weather_line good_line) = Some True"
  by (simp add: run_simps)

section \<open>Latest write wins\<close>

lemma insert_or_ignore_existing:
  "sqlite_int_ok (w_max_temp_c r) \<Longrightarrow> sqlite_int_ok (w_min_temp_c r) \<Longrightarrow>
   sqlite_int_ok (w_precipitation_mm r) \<Longrightarrow> row_key r \<in> set (map row_key wt) \<Longrightarrow>
   insert_or_ignore r wt = Inr wt"
  by (simp add: insert_or_ignore_def)

lemma parse_good_line_etl:
  "parse_line_etl_runner good_line =
     Some \<lparr>date_of = (2020, 1, 2), max_temp = Some 100, min_temp = Some 50, precip = Some 0\<rparr>"
  by code_simp

lemma stem_S: "splitext_stem ''S.txt'' = ''S''"
  by code_simp

text \<open>
  C1, as amended. Through \<open>upsert_weather_fact\<close> of src/ingest.py, on each of its three
  branches, a fact that satisfies the CHECK constraints, whose strings fit their columns
  where the columns have a width, and whose composite key is in the table replaces the row
  of that key in every column, the key's row becoming the incoming fact, and no other row
  changes. The sqlite3 scripts under answers/ write with \<open>INSERT OR IGNORE\<close>: there a row
  whose key is in the table leaves the table as it was.
\<close>

theorem upsert_overwrites_every_column:
  "(check_constraints f \<and> strings_fit d f \<and> tbl (key_of f) = Some old
      \<longrightarrow> (\<exists>tbl'. upsert_weather_fact d f tbl = Inr tbl'
                  \<and> tbl' (key_of f) = Some f
                  \<and> (\<forall>k. k \<noteq> key_of f \<longrightarrow> tbl' k = tbl k)))
   \<and> set_columns old f = f
   \<and> (sqlite_int_ok (w_max_temp_c r) \<and> sqlite_int_ok (w_min_temp_c r)
        \<and> sqlite_int_ok (w_precipitation_mm r) \<and> row_key r \<in> set (map row_key wt)
      \<longrightarrow> insert_or_ignore r wt = Inr wt)"
  by (simp add: upsert_admitted set_columns_all insert_or_ignore_existing)

theorem upsert_overwrites_every_column_witness:
  "check_constraints (build_fact ''S'' ''manual'' ''r'' 2 good_observation)
   \<and> strings_fit PostgreSQL (build_fact ''S'' ''manual'' ''r'' 2 good_observation)
   \<and> [key_of (build_fact ''S'' ''manual'' ''r'' 2 good_observation)
         \<mapsto> build_fact ''S'' ''manual'' ''r'' 1 good_observation]
       (key_of (build_fact ''S'' ''manual'' ''r'' 2 good_observation))
     = Some (build_fact ''S'' ''manual'' ''r'' 1 good_observation)
   \<and> upsert_weather_fact PostgreSQL (build_fact ''S'' ''manual'' ''r'' 2 good_observation)
       [key_of (build_fact ''S'' ''manual'' ''r'' 2 good_observation)
          \<mapsto> build_fact ''S'' ''manual'' ''r'' 1 good_observation]
     = Inr [key_of (build_fact ''S'' ''manual'' ''r'' 2 good_observation)
              \<mapsto> build_fact ''S'' ''manual'' ''r'' 2 good_observation]
   \<and> row_key new_row \<in> set (map row_key [old_row])
   \<and> insert_or_ignore new_row [old_row] = Inr [old_row]"
  using upsert_overwrites_every_column
          [where f = "build_fact ''S'' ''manual'' ''r'' 2 good_observation"
             and old = "build_fact ''S'' ''manual'' ''r'' 1 good_observation"
             and tbl = "[key_of (build_fact ''S'' ''manual'' ''r'' 2 good_observation)
                          \<mapsto> build_fact ''S'' ''manual'' ''r'' 1 good_observation]"
             and d = PostgreSQL and r = new_row and wt = "[old_row]"]
  by (simp add: upsert_admitted check_build_fact raw_in_range_def good_observation_def
        ck_raw_max_temp_def ck_raw_min_temp_def ck_raw_precip_def strings_fit_build_fact
        insert_or_ignore_def sqlite_int_ok_def row_key_def new_row_def old_row_def)

text \<open>
  The claim as stated fails on the path of answers/etl\_runner.py: the table holds the row
  of station \<open>S\<close> and 2 January 2020 with maximum 250; processing a file \<open>S.txt\<close> whose
  line for that date carries the maximum 100 counts the line and leaves the row as it was.
\<close>

theorem insert_or_ignore_keeps_old_row:
  "process_file ''S.txt'' [Line good_line] [old_row] = (Inr (''S'', 1), [old_row])
   \<and> map_option max_temp (parse_line_etl_runner good_line) = Some (Some 100)
   \<and> w_max_temp_c old_row = Some 250"
  by (simp add: process_file_def stem_S parse_good_line_etl insert_or_ignore_def
        sqlite_int_ok_def row_key_def old_row_def Let_def)

section \<open>The file sweep\<close>

lemma process_lines_fails_iff:
  "isl (fst (process_lines sid evs tbl n)) \<longleftrightarrow> \<not> reads_ok evs"
proof (induction evs arbitrary: tbl n)
  case Nil
  then show ?case by simp
next
  case (Cons ev evs)
  show ?case
  proof (cases ev)
    case ReadError
    then show ?thesis by simp
  next
    case (Line line)
    then show ?thesis
      using Cons.IH by (auto simp: insert_or_ignore_def split: option.splits)
  qed
qed

lemma process_lines_clean:
  "reads_ok evs \<Longrightarrow>
   process_lines sid evs tbl n
     = (Inr (n + length (rows_of sid evs)), insert_rows (rows_of sid evs) tbl)"
proof (induction evs arbitrary: tbl n)
  case Nil
  then show ?case by (simp add: insert_rows_def)
next
  case (Cons ev evs)
  show ?case
  proof (cases ev)
    case ReadError
    then show ?thesis using Cons.prems by simp
  next
    case (Line line)
    then show ?thesis
      using Cons.prems Cons.IH
      by (auto simp: insert_or_ignore_def insert_rows_def split: option.splits)
  qed
qed

lemma process_lines_read_error:
  "reads_ok evs \<Longrightarrow>
   process_lines sid (evs @ [ReadError]) tbl n
     = (Inl OSError, insert_rows (rows_of sid evs) tbl)"
proof (induction evs arbitrary: tbl n)
  case Nil
  then show ?case by (simp add: insert_rows_def)
next
  case (Cons ev evs)
  show ?case
  proof (cases ev)
    case ReadError
    then show ?thesis using Cons.prems by simp
  next
    case (Line line)
    then show ?thesis
      using Cons.prems Cons.IH
      by (auto simp: insert_or_ignore_def insert_rows_def split: option.splits)
  qed
qed

lemma reads_ok_append: "reads_ok (xs @ ys) \<longleftrightarrow> reads_ok xs \<and> reads_ok ys"
proof (induction xs)
  case Nil
  then show ?case by simp
next
  case (Cons ev xs)
  then show ?case by (cases ev) (auto split: option.splits)
qed

lemma rows_of_append: "rows_of sid (xs @ ys) = rows_of sid xs @ rows_of sid ys"
proof (induction xs)
  case Nil
  then show ?case by simp
next
  case (Cons ev xs)
  then show ?case by (cases ev) (auto split: option.splits)
qed

lemma insert_rows_append: "insert_rows (xs @ ys) t = insert_rows ys (insert_rows xs t)"
  by (simp add: insert_rows_def)

lemma insert_rows_keys:
  "row_key ` set (insert_rows xs t) = row_key ` set t \<union> row_key ` set xs"
proof (induction xs arbitrary: t)
  case Nil
  then show ?case by (simp add: insert_rows_def)
next
  case (Cons x xs)
  have "insert_rows (x # xs) t
          = insert_rows xs (if row_key x \<in> set (map row_key t) then t else t @ [x])"
    by (simp add: insert_rows_def)
  then show ?case using Cons.IH by auto
qed

lemma insert_rows_present:
  "set (map row_key xs) \<subseteq> set (map row_key t) \<Longrightarrow> insert_rows xs t = t"
proof (induction xs)
  case Nil
  then show ?case by (simp add: insert_rows_def)
next
  case (Cons x xs)
  then have "insert_rows (x # xs) t = insert_rows xs t"
    by (simp add: insert_rows_def)
  then show ?case using Cons by simp
qed

lemma insert_rows_prefix_again:
  "insert_rows (xs @ ys) (insert_rows xs t) = insert_rows (xs @ ys) t"
proof -
  have "insert_rows xs (insert_rows xs t) = insert_rows xs t"
    by (rule insert_rows_present) (simp add: insert_rows_keys)
  then show ?thesis by (simp add: insert_rows_append)
qed

lemma insert_rows_distinct:
  "distinct (map row_key t) \<Longrightarrow> distinct (map row_key (insert_rows xs t))"
proof (induction xs arbitrary: t)
  case Nil
  then show ?case by (simp add: insert_rows_def)
next
  case (Cons x xs)
  have step: "insert_rows (x # xs) t
          = insert_rows xs (if row_key x \<in> set (map row_key t) then t else t @ [x])"
    by (simp add: insert_rows_def)
  have "distinct (map row_key (if row_key x \<in> set (map row_key t) then t else t @ [x]))"
    using Cons.prems by auto
  then show ?case unfolding step by (rule Cons.IH)
qed

lemma process_lines_distinct:
  "distinct (map row_key tbl) \<Longrightarrow> distinct (map row_key (snd (process_lines sid evs tbl n)))"
proof (induction evs arbitrary: tbl n)
  case Nil
  then show ?case by simp
next
  case (Cons ev evs)
  show ?case
  proof (cases ev)
    case ReadError
    then show ?thesis using Cons.prems by simp
  next
    case (Line line)
    show ?thesis
    proof (cases "parse_line_etl_runner line")
      case None
      then show ?thesis using Line Cons by simp
    next
      case (Some data)
      let ?r = "\<lparr>w_station_id = sid, w_date = date_of data, w_max_temp_c = max_temp data,
                 w_min_temp_c = min_temp data, w_precipitation_mm = precip data\<rparr>"
      show ?thesis
      proof (cases "insert_or_ignore ?r tbl")
        case (Inl e)
        then show ?thesis using Line Some Cons.prems by simp
      next
        case (Inr tbl')
        then have "distinct (map row_key tbl')"
          using Cons.prems by (auto simp: insert_or_ignore_def split: if_splits)
        then show ?thesis using Line Some Inr Cons.IH by simp
      qed
    qed
  qed
qed

lemma process_file_fails_iff:
  "isl (fst (process_file name evs tbl)) \<longleftrightarrow> \<not> reads_ok evs"
proof -
  obtain r t where pl: "process_lines (splitext_stem name) evs tbl 0 = (r, t)"
    by (cases "process_lines (splitext_stem name) evs tbl 0")
  show ?thesis
    using process_lines_fails_iff [of "splitext_stem name" evs tbl 0] pl
    by (cases r) (simp_all add: process_file_def)
qed

lemma sweep_weather:
  "weather (sweep es st) =
     fold (\<lambda>e t. snd (process_file (entry_name e) (entry_reads e) t))
          (filter (\<lambda>e. endswith_txt (entry_name e)) es) (weather st)"
proof (induction es arbitrary: st)
  case Nil
  then show ?case by simp
next
  case (Cons e es)
  obtain r t where pf: "process_file (entry_name e) (entry_reads e) (weather st) = (r, t)"
    by (cases "process_file (entry_name e) (entry_reads e) (weather st)")
  show ?case
  proof (cases r)
    case (Inl ex)
    then show ?thesis using pf Cons.IH by simp
  next
    case (Inr res)
    then show ?thesis using pf Cons.IH by (cases res) simp
  qed
qed

lemma sweep_archive_dir:
  "archive_dir (sweep es st) = archive_dir st @ map entry_name (filter archivable es)"
proof (induction es arbitrary: st)
  case Nil
  then show ?case by simp
next
  case (Cons e es)
  obtain r t where pf: "process_file (entry_name e) (entry_reads e) (weather st) = (r, t)"
    by (cases "process_file (entry_name e) (entry_reads e) (weather st)")
  have ok: "isl r \<longleftrightarrow> \<not> reads_ok (entry_reads e)"
    using process_file_fails_iff [of "entry_name e" "entry_reads e" "weather st"] pf by simp
  show ?case
  proof (cases r)
    case (Inl ex)
    then show ?thesis using pf ok Cons.IH by (simp add: archivable_def)
  next
    case (Inr res)
    then show ?thesis using pf ok Cons.IH by (cases res) (simp add: archivable_def)
  qed
qed

lemma sweep_watch_dir:
  "watch_dir (sweep es st) =
     watch_dir st @ map entry_name (filter (\<lambda>e. \<not> archivable e) es)"
proof (induction es arbitrary: st)
  case Nil
  then show ?case by simp
next
  case (Cons e es)
  obtain r t where pf: "process_file (entry_name e) (entry_reads e) (weather st) = (r, t)"
    by (cases "process_file (entry_name e) (entry_reads e) (weather st)")
  have ok: "isl r \<longleftrightarrow> \<not> reads_ok (entry_reads e)"
    using process_file_fails_iff [of "entry_name e" "entry_reads e" "weather st"] pf by simp
  show ?case
  proof (cases r)
    case (Inl ex)
    then show ?thesis using pf ok Cons.IH by (simp add: archivable_def)
  next
    case (Inr res)
    then show ?thesis using pf ok Cons.IH by (cases res) (simp add: archivable_def)
  qed
qed

lemma process_file_distinct:
  "distinct (map row_key tbl) \<Longrightarrow>
   distinct (map row_key (snd (process_file name evs tbl)))"
proof -
  assume d: "distinct (map row_key tbl)"
  obtain r t where pl: "process_lines (splitext_stem name) evs tbl 0 = (r, t)"
    by (cases "process_lines (splitext_stem name) evs tbl 0")
  show ?thesis
    using process_lines_distinct [OF d, of "splitext_stem name" evs 0] pl
    by (cases r) (simp_all add: process_file_def)
qed

lemma sweep_distinct:
  "distinct (map row_key (weather st)) \<Longrightarrow> distinct (map row_key (weather (sweep es st)))"
proof -
  have "distinct (map row_key t) \<Longrightarrow>
        distinct (map row_key
          (fold (\<lambda>e t. snd (process_file (entry_name e) (entry_reads e) t)) xs t))"
    for xs :: "dir_entry list" and t
    by (induction xs arbitrary: t) (simp_all add: process_file_distinct)
  then show "distinct (map row_key (weather st)) \<Longrightarrow>
             distinct (map row_key (weather (sweep es st)))"
    by (simp add: sweep_weather)
qed

lemma retry_after_read_error:
  assumes "reads_ok (map Line ls)"
  shows "process_file name (map Line (take k ls) @ [ReadError]) tbl
           = (Inl OSError,
              insert_rows (rows_of (splitext_stem name) (map Line (take k ls))) tbl)"
    and "process_file name (map Line ls)
           (snd (process_file name (map Line (take k ls) @ [ReadError]) tbl))
         = process_file name (map Line ls) tbl"
proof -
  let ?sid = "splitext_stem name"
  have split: "map Line ls = map Line (take k ls) @ map Line (drop k ls)"
    by (simp flip: map_append)
  have pre: "reads_ok (map Line (take k ls))"
    using assms reads_ok_append [of "map Line (take k ls)" "map Line (drop k ls)"]
    by (simp flip: map_append)
  show first: "process_file name (map Line (take k ls) @ [ReadError]) tbl
           = (Inl OSError, insert_rows (rows_of ?sid (map Line (take k ls))) tbl)"
    by (simp add: process_file_def process_lines_read_error [OF pre])
  have rows: "rows_of ?sid (map Line ls)
                = rows_of ?sid (map Line (take k ls)) @ rows_of ?sid (map Line (drop k ls))"
    by (subst split) (rule rows_of_append)
  show "process_file name (map Line ls)
           (snd (process_file name (map Line (take k ls) @ [ReadError]) tbl))
         = process_file name (map Line ls) tbl"
    unfolding first
    by (simp add: process_file_def process_lines_clean [OF assms] rows
          insert_rows_prefix_again)
qed

lemma failed_file_not_archived:
  assumes "distinct (map entry_name listing)" "e \<in> set listing" "\<not> reads_ok (entry_reads e)"
  shows "entry_name e \<notin> set (map entry_name (filter archivable listing))"
proof
  assume "entry_name e \<in> set (map entry_name (filter archivable listing))"
  then obtain e' where e': "e' \<in> set listing" "archivable e'" "entry_name e' = entry_name e"
    by auto
  have "inj_on entry_name (set listing)"
    using assms(1) by (simp add: distinct_map)
  then have "e' = e"
    using e'(1,3) assms(2) by (auto dest: inj_onD)
  then show False
    using e'(2) assms(3) by (simp add: archivable_def)
qed

lemma evaluated_lines:
  "endswith_txt ''A.txt''" "endswith_txt ''B.txt''"
  "splitext_stem ''A.txt'' = ''A''" "splitext_stem ''B.txt'' = ''B''"
  "parse_line_etl_runner later_line =
     Some \<lparr>date_of = (2020, 1, 3), max_temp = Some 110, min_temp = None, precip = Some 3\<rparr>"
  by code_simp+

text \<open>
  C7. A sweep moves to the archive exactly the \<open>.txt\<close> files whose every line was read and
  processed without an exception (and whose move succeeded); every other file stays in the
  watch location, a file that failed among them and, with distinct names, not in the
  archive. The failure of a file stops no other: the table after the sweep is the table
  after processing every \<open>.txt\<close> file in turn. A file whose reading breaks after \<open>k\<close>
  lines fails with the rows of those lines kept, and processing it again in full gives the
  result and the table of one clean pass; keys stay distinct throughout.
\<close>

theorem archive_only_after_clean_pass:
  "archive_dir (main listing tbl) = map entry_name (filter archivable listing)
   \<and> watch_dir (main listing tbl) = map entry_name (filter (\<lambda>e. \<not> archivable e) listing)
   \<and> (\<forall>name \<in> set (archive_dir (main listing tbl)).
         \<exists>e \<in> set listing. entry_name e = name \<and> endswith_txt name \<and> reads_ok (entry_reads e))
   \<and> (e \<in> set listing \<and> \<not> reads_ok (entry_reads e)
        \<longrightarrow> entry_name e \<in> set (watch_dir (main listing tbl)))
   \<and> (distinct (map entry_name listing) \<and> e \<in> set listing \<and> \<not> reads_ok (entry_reads e)
        \<longrightarrow> entry_name e \<notin> set (archive_dir (main listing tbl)))
   \<and> weather (main listing tbl)
       = fold (\<lambda>e t. snd (process_file (entry_name e) (entry_reads e) t))
              (filter (\<lambda>e. endswith_txt (entry_name e)) listing) tbl
   \<and> (reads_ok (map Line ls)
        \<longrightarrow> fst (process_file name (map Line (take k ls) @ [ReadError]) tbl) = Inl OSError
          \<and> process_file name (map Line ls)
               (snd (process_file name (map Line (take k ls) @ [ReadError]) tbl))
             = process_file name (map Line ls) tbl)
   \<and> (distinct (map row_key tbl) \<longrightarrow> distinct (map row_key (weather (main listing tbl))))"
proof (intro conjI impI ballI)
  show a: "archive_dir (main listing tbl) = map entry_name (filter archivable listing)"
    by (simp add: main_def sweep_archive_dir)
  show w: "watch_dir (main listing tbl)
             = map entry_name (filter (\<lambda>e. \<not> archivable e) listing)"
    by (simp add: main_def sweep_watch_dir)
  show "weather (main listing tbl)
       = fold (\<lambda>e t. snd (process_file (entry_name e) (entry_reads e) t))
              (filter (\<lambda>e. endswith_txt (entry_name e)) listing) tbl"
    by (simp add: main_def sweep_weather)
  show "\<exists>e \<in> set listing. entry_name e = name' \<and> endswith_txt name' \<and> reads_ok (entry_reads e)"
    if "name' \<in> set (archive_dir (main listing tbl))" for name'
    using that unfolding a by (auto simp: archivable_def)
  show "entry_name e \<in> set (watch_dir (main listing tbl))"
    if "e \<in> set listing \<and> \<not> reads_ok (entry_reads e)"
    using that unfolding w by (auto simp: archivable_def)
  show "entry_name e \<notin> set (archive_dir (main listing tbl))"
    if "distinct (map entry_name listing) \<and> e \<in> set listing \<and> \<not> reads_ok (entry_reads e)"
    using that failed_file_not_archived [of listing e] unfolding a by blast
  show "fst (process_file name (map Line (take k ls) @ [ReadError]) tbl) = Inl OSError"
    if "reads_ok (map Line ls)"
    by (simp add: retry_after_read_error(1) [OF that])
  show "process_file name (map Line ls)
               (snd (process_file name (map Line (take k ls) @ [ReadError]) tbl))
             = process_file name (map Line ls) tbl"
    if "reads_ok (map Line ls)"
    by (rule retry_after_read_error(2) [OF that])
  show "distinct (map row_key (weather (main listing tbl)))" if "distinct (map row_key tbl)"
    using that sweep_distinct [of "\<lparr>weather = tbl, archive_dir = [], watch_dir = [],
                    total_files = 0, total_records = 0\<rparr>" listing]
    by (simp add: main_def)
qed

theorem archive_only_after_clean_pass_witness:
  "archive_dir (main [failing_entry, clean_entry] []) = [''B.txt'']
   \<and> watch_dir (main [failing_entry, clean_entry] []) = [''A.txt'']
   \<and> failing_entry \<in> set [failing_entry, clean_entry]
   \<and> \<not> reads_ok (entry_reads failing_entry)
   \<and> distinct (map entry_name [failing_entry, clean_entry])
   \<and> map w_station_id (weather (main [failing_entry, clean_entry] [])) = [''A'', ''B'']
   \<and> reads_ok (map Line [good_line, later_line])
   \<and> process_file ''A.txt'' (map Line (take 1 [good_line, later_line]) @ [ReadError]) []
       = (Inl OSError,
          [\<lparr>w_station_id = ''A'', w_date = (2020, 1, 2), w_max_temp_c = Some 100,
            w_min_temp_c = Some 50, w_precipitation_mm = Some 0\<rparr>])
   \<and> process_file ''A.txt'' (map Line [good_line, later_line])
        (snd (process_file ''A.txt'' (map Line (take 1 [good_line, later_line]) @ [ReadError]) []))
       = process_file ''A.txt'' (map Line [good_line, later_line]) []
   \<and> snd (process_file ''A.txt'' (map Line [good_line, later_line]) [])
       = [\<lparr>w_station_id = ''A'', w_date = (2020, 1, 2), w_max_temp_c = Some 100,
            w_min_temp_c = Some 50, w_precipitation_mm = Some 0\<rparr>,
          \<lparr>w_station_id = ''A'', w_date = (2020, 1, 3), w_max_temp_c = Some 110,
            w_min_temp_c = None, w_precipitation_mm = Some 3\<rparr>]
   \<and> distinct (map row_key (weather (main [failing_entry, clean_entry] [])))"
  using archive_only_after_clean_pass
          [where listing = "[failing_entry, clean_entry]" and tbl = "[]" and e = failing_entry
             and ls = "[good_line, later_line]" and k = 1 and name = "''A.txt''"]
  by (simp add: archivable_def failing_entry_def clean_entry_def evaluated_lines
        parse_good_line_etl sqlite_int_ok_def process_file_def insert_or_ignore_def
        row_key_def Let_def)


section \<open>Aggregation\<close>

lemma sql_acc_fold:
  "fold (\<lambda>v (acc, n). case v of None \<Rightarrow> (acc, n) | Some x \<Rightarrow> (acc + x, n + 1)) col (a, m)
     = (a + sum_list (non_null col), m + length (non_null col))"
proof (induction col arbitrary: a m)
  case Nil
  show ?case by simp
next
  case (Cons v col)
  show ?case
  proof (cases v)
    case None
    then show ?thesis using Cons.IH [of a m] by simp
  next
    case (Some x)
    then show ?thesis using Cons.IH [of "a + x" "m + 1"] by (simp add: add.assoc)
  qed
qed

lemma sql_acc_non_null: "sql_acc col = (sum_list (non_null col), length (non_null col))"
  unfolding sql_acc_def by (simp add: sql_acc_fold)

lemma sql_avg_mean: "sql_avg col = mean_of (non_null col)"
  by (simp add: sql_avg_def sql_acc_non_null mean_of_def)

lemma sql_sum_sum: "sql_sum col = sum_of (non_null col)"
  by (simp add: sql_sum_def sql_acc_non_null sum_of_def)

lemma non_null_empty: "non_null col = [] \<longleftrightarrow> (\<forall>v \<in> set col. v = None)"
proof (induction col)
  case Nil
  show ?case by simp
next
  case (Cons v col)
  then show ?case by (cases v) simp_all
qed

lemma non_null_Some: "non_null (map (\<lambda>r. Some (h r)) rows) = map h rows"
  by (induction rows) simp_all

lemma non_null_present:
  "(\<forall>r \<in> set rows. col r \<noteq> None) \<Longrightarrow> length (non_null (map col rows)) = length rows"
proof (induction rows)
  case Nil
  show ?case by simp
next
  case (Cons r rows)
  then show ?case by (cases "col r") simp_all
qed

lemma group_by_keys: "map fst (group_by keyf agg rows) = remdups (map keyf rows)"
  by (simp add: group_by_def comp_def)

lemma group_by_row:
  "(k, r) \<in> set (group_by keyf agg rows)
     \<longleftrightarrow> k \<in> keyf ` set rows \<and> r = agg (filter (\<lambda>x. keyf x = k) rows)"
  by (auto simp: group_by_def)

lemma group_by_rows:
  "\<forall>(k, r) \<in> set (group_by keyf agg rows).
     filter (\<lambda>x. keyf x = k) rows \<noteq> [] \<and> r = agg (filter (\<lambda>x. keyf x = k) rows)"
  by (auto simp: group_by_def filter_empty_conv)

lemma group_not_empty: "k \<in> keyf ` set rows \<Longrightarrow> filter (\<lambda>x. keyf x = k) rows \<noteq> []"
  by (auto simp: filter_empty_conv)

lemma aggregate_group_means:
  "aggregate_group g =
     \<lparr>avg_max_temp_c = mean_of (non_null (map max_temp_c g)),
      avg_min_temp_c = mean_of (non_null (map min_temp_c g)),
      total_precip_mm = sum_of (non_null (map precip_mm g)),
      record_count = length g,
      avg_quality_score = mean_of (map quality_score g)\<rparr>"
  by (simp add: aggregate_group_def sql_avg_mean sql_sum_sum non_null_Some)

lemma mean_of_None: "mean_of (non_null (map col g)) = None \<longleftrightarrow> (\<forall>f \<in> set g. col f = None)"
  by (simp add: mean_of_def non_null_empty)

lemma sum_of_None: "sum_of (non_null (map col g)) = None \<longleftrightarrow> (\<forall>f \<in> set g. col f = None)"
  by (simp add: sum_of_def non_null_empty)

lemma two_facts_one_group:
  assumes "annual_key f1 = annual_key f2" "max_temp_c f1 = Some 10" "max_temp_c f2 = Some 12"
  shows "map (\<lambda>(k, r). (avg_max_temp_c r, record_count r)) (annual_weather_aggregation [f1, f2])
           = [(Some 11, 2)]"
  using assms
  by (simp add: annual_weather_aggregation_def group_by_def aggregate_group_means mean_of_def)

lemma group_by_distinct: "distinct (map fst (group_by keyf agg rows))"
  by (simp add: group_by_keys)

lemma group_by_key_set: "fst ` set (group_by keyf agg rows) = keyf ` set rows"
  using arg_cong [OF group_by_keys [of keyf agg rows], of set] by simp

lemma summary_group:
  "filter (\<lambda>x. summary_key x = k) (filter all_present tbl)
     = filter (\<lambda>row. all_present row \<and> summary_key row = k) tbl"
  by (simp add: conj_commute)

lemma weather_summary_rows:
  assumes "weather_summary tbl = Inr result"
  shows "result = group_by summary_key summarise_group (filter all_present tbl)"
  using assms
  by (simp add: weather_summary_def Let_def group_by_def comp_def split: if_splits)

lemma weather_summary_fails:
  "isl (weather_summary tbl) \<longleftrightarrow>
     (\<exists>k. sum_overflows 0
            (map w_precipitation_mm (filter (\<lambda>row. all_present row \<and> summary_key row = k) tbl)))"
proof -
  have "isl (weather_summary tbl) \<longleftrightarrow>
          (\<exists>k \<in> summary_key ` set (filter all_present tbl).
             sum_overflows 0 (map w_precipitation_mm
               (filter (\<lambda>x. summary_key x = k) (filter all_present tbl))))"
    by (auto simp: weather_summary_def Let_def group_by_def list_ex_iff)
  also have "\<dots> \<longleftrightarrow>
     (\<exists>k. sum_overflows 0
            (map w_precipitation_mm (filter (\<lambda>x. summary_key x = k) (filter all_present tbl))))"
  proof
    assume "\<exists>k \<in> summary_key ` set (filter all_present tbl).
             sum_overflows 0 (map w_precipitation_mm
               (filter (\<lambda>x. summary_key x = k) (filter all_present tbl)))"
    then show "\<exists>k. sum_overflows 0
            (map w_precipitation_mm (filter (\<lambda>x. summary_key x = k) (filter all_present tbl)))"
      by blast
  next
    assume "\<exists>k. sum_overflows 0
            (map w_precipitation_mm (filter (\<lambda>x. summary_key x = k) (filter all_present tbl)))"
    then obtain k where k: "sum_overflows 0
            (map w_precipitation_mm (filter (\<lambda>x. summary_key x = k) (filter all_present tbl)))"
      by blast
    have "filter (\<lambda>x. summary_key x = k) (filter all_present tbl) \<noteq> []"
      using k by (cases "filter (\<lambda>x. summary_key x = k) (filter all_present tbl)") simp_all
    then have "k \<in> summary_key ` set (filter all_present tbl)"
      by (auto simp: filter_empty_conv)
    with k show "\<exists>k \<in> summary_key ` set (filter all_present tbl).
             sum_overflows 0 (map w_precipitation_mm
               (filter (\<lambda>x. summary_key x = k) (filter all_present tbl)))"
      by blast
  qed
  finally show ?thesis unfolding summary_group .
qed

lemma summary_row_means:
  assumes "weather_summary tbl = Inr result" "(k, r) \<in> set result"
  defines "g' \<equiv> filter (\<lambda>row. all_present row \<and> summary_key row = k) tbl"
  shows "g' \<noteq> []"
    and "s_avg_max_temp_c r
           = map_option (\<lambda>v. v / 10) (mean_of (non_null (int_column (map w_max_temp_c g'))))"
    and "s_avg_min_temp_c r
           = map_option (\<lambda>v. v / 10) (mean_of (non_null (int_column (map w_min_temp_c g'))))"
    and "s_total_precip_cm r
           = map_option (\<lambda>v. v / 100) (sum_of (non_null (int_column (map w_precipitation_mm g'))))"
proof -
  from assms(2) have k: "k \<in> summary_key ` set (filter all_present tbl)"
    and r: "r = summarise_group g'"
    unfolding weather_summary_rows [OF assms(1)] group_by_row summary_group g'_def by simp_all
  from group_not_empty [OF k] show "g' \<noteq> []"
    unfolding summary_group g'_def .
  show "s_avg_max_temp_c r
           = map_option (\<lambda>v. v / 10) (mean_of (non_null (int_column (map w_max_temp_c g'))))"
    by (simp add: r summarise_group_def sql_avg_mean)
  show "s_avg_min_temp_c r
           = map_option (\<lambda>v. v / 10) (mean_of (non_null (int_column (map w_min_temp_c g'))))"
    by (simp add: r summarise_group_def sql_avg_mean)
  show "s_total_precip_cm r
           = map_option (\<lambda>v. v / 100) (sum_of (non_null (int_column (map w_precipitation_mm g'))))"
    by (simp add: r summarise_group_def sql_sum_sum)
qed

lemma observed_columns:
  "station_id (observed d mx mn pr) = ''S''"
  "observation_date (observed d mx mn pr) = d"
  "max_temp_c (observed d mx mn pr) = map_option (\<lambda>r. of_int r / 10) mx"
  "min_temp_c (observed d mx mn pr) = map_option (\<lambda>r. of_int r / 10) mn"
  "precip_mm (observed d mx mn pr) = map_option (\<lambda>r. of_int r / 10) pr"
  by (simp_all add: observed_def build_fact_def Let_def)

lemma observed_score:
  "quality_score (observed d mx mn pr)
     = quality_score_of
         (missing_values_of (map_option (\<lambda>r. of_int r / 10) mx)
            (map_option (\<lambda>r. of_int r / 10) mn) (map_option (\<lambda>r. of_int r / 10) pr))
         (outlier_count_of (map_option (\<lambda>r. of_int r / 10) mx)
            (map_option (\<lambda>r. of_int r / 10) mn) (map_option (\<lambda>r. of_int r / 10) pr))
         (inconsistent (map_option (\<lambda>r. of_int r / 10) mx)
            (map_option (\<lambda>r. of_int r / 10) mn))"
  by (simp_all add: observed_def build_fact_def Let_def)

lemma two_facts_scores:
  "quality_score (observed (2020, 1, 2) (Some 100) None (Some 5)) = 4 / 5"
  "quality_score (observed (2020, 7, 3) (Some 120) None None) = 3 / 5"
  by (simp_all add: observed_score quality_score_of_def missing_values_of_def
        outlier_count_of_def inconsistent_def Let_def)

text \<open>
  C6, as amended. In the three aggregations of src/analyze.py the mean of the maximum and of
  the minimum temperature of a group is the mean of the values of that column that are
  present, the precipitation total is the sum of the values present, a column with no value
  present in the group gives a null metric and no other column does, and the record count is
  the number of rows of the group; every key that occurs has one output row, computed from
  the rows with that key. Two facts of one station and year with maximum temperatures 10 and
  12 give the mean 11 and the count 2. The summary of answers/aggregate\_stats.py is computed
  from the rows that have all three values: a key has a summary row when such a row exists,
  and its means and total run over those rows only; the statement fails when the integer sum
  of a group overflows, and only then.
\<close>

theorem aggregation_over_present_values:
  "aggregate_group g =
     \<lparr>avg_max_temp_c = mean_of (non_null (map max_temp_c g)),
      avg_min_temp_c = mean_of (non_null (map min_temp_c g)),
      total_precip_mm = sum_of (non_null (map precip_mm g)),
      record_count = length g,
      avg_quality_score = mean_of (map quality_score g)\<rparr>
   \<and> (avg_max_temp_c (aggregate_group g) = None \<longleftrightarrow> (\<forall>f \<in> set g. max_temp_c f = None))
   \<and> (avg_min_temp_c (aggregate_group g) = None \<longleftrightarrow> (\<forall>f \<in> set g. min_temp_c f = None))
   \<and> (total_precip_mm (aggregate_group g) = None \<longleftrightarrow> (\<forall>f \<in> set g. precip_mm f = None))
   \<and> distinct (map fst (annual_weather_aggregation facts))
   \<and> fst ` set (annual_weather_aggregation facts) = annual_key ` set facts
   \<and> (\<forall>(k, r) \<in> set (annual_weather_aggregation facts).
         filter (\<lambda>f. annual_key f = k) facts \<noteq> []
         \<and> r = aggregate_group (filter (\<lambda>f. annual_key f = k) facts))
   \<and> distinct (map fst (monthly_weather_aggregation facts))
   \<and> fst ` set (monthly_weather_aggregation facts) = monthly_key ` set facts
   \<and> (\<forall>(k, r) \<in> set (monthly_weather_aggregation facts).
         filter (\<lambda>f. monthly_key f = k) facts \<noteq> []
         \<and> r = aggregate_group (filter (\<lambda>f. monthly_key f = k) facts))
   \<and> distinct (map fst (quarterly_weather_aggregation facts))
   \<and> fst ` set (quarterly_weather_aggregation facts) = quarterly_key ` set facts
   \<and> (\<forall>(k, r) \<in> set (quarterly_weather_aggregation facts).
         filter (\<lambda>f. quarterly_key f = k) facts \<noteq> []
         \<and> r = aggregate_group (filter (\<lambda>f. quarterly_key f = k) facts))
   \<and> (annual_key f1 = annual_key f2 \<and> max_temp_c f1 = Some 10 \<and> max_temp_c f2 = Some 12
        \<longrightarrow> map (\<lambda>(k, r). (avg_max_temp_c r, record_count r))
              (annual_weather_aggregation [f1, f2]) = [(Some 11, 2)])
   \<and> (isl (weather_summary tbl) \<longleftrightarrow>
        (\<exists>k. sum_overflows 0
               (map w_precipitation_mm
                  (filter (\<lambda>row. all_present row \<and> summary_key row = k) tbl))))
   \<and> (weather_summary tbl = Inr result
        \<longrightarrow> distinct (map fst result)
          \<and> fst ` set result = summary_key ` set (filter all_present tbl)
          \<and> (\<forall>(k, r) \<in> set result.
               filter (\<lambda>row. all_present row \<and> summary_key row = k) tbl \<noteq> []
               \<and> s_avg_max_temp_c r
                   = map_option (\<lambda>v. v / 10)
                       (mean_of (non_null (int_column (map w_max_temp_c
                          (filter (\<lambda>row. all_present row \<and> summary_key row = k) tbl)))))
               \<and> s_avg_min_temp_c r
                   = map_option (\<lambda>v. v / 10)
                       (mean_of (non_null (int_column (map w_min_temp_c
                          (filter (\<lambda>row. all_present row \<and> summary_key row = k) tbl)))))
               \<and> s_total_precip_cm r
                   = map_option (\<lambda>v. v / 100)
                       (sum_of (non_null (int_column (map w_precipitation_mm
                          (filter (\<lambda>row. all_present row \<and> summary_key row = k) tbl)))))))"
proof (intro conjI impI)
  show "aggregate_group g =
     \<lparr>avg_max_temp_c = mean_of (non_null (map max_temp_c g)),
      avg_min_temp_c = mean_of (non_null (map min_temp_c g)),
      total_precip_mm = sum_of (non_null (map precip_mm g)),
      record_count = length g,
      avg_quality_score = mean_of (map quality_score g)\<rparr>"
    by (rule aggregate_group_means)
  show "avg_max_temp_c (aggregate_group g) = None \<longleftrightarrow> (\<forall>f \<in> set g. max_temp_c f = None)"
    by (simp add: aggregate_group_means mean_of_None)
  show "avg_min_temp_c (aggregate_group g) = None \<longleftrightarrow> (\<forall>f \<in> set g. min_temp_c f = None)"
    by (simp add: aggregate_group_means mean_of_None)
  show "total_precip_mm (aggregate_group g) = None \<longleftrightarrow> (\<forall>f \<in> set g. precip_mm f = None)"
    by (simp add: aggregate_group_means sum_of_None)
  show "distinct (map fst (annual_weather_aggregation facts))"
    unfolding annual_weather_aggregation_def by (rule group_by_distinct)
  show "distinct (map fst (monthly_weather_aggregation facts))"
    unfolding monthly_weather_aggregation_def by (rule group_by_distinct)
  show "distinct (map fst (quarterly_weather_aggregation facts))"
    unfolding quarterly_weather_aggregation_def by (rule group_by_distinct)
  show "fst ` set (annual_weather_aggregation facts) = annual_key ` set facts"
    unfolding annual_weather_aggregation_def by (rule group_by_key_set)
  show "fst ` set (monthly_weather_aggregation facts) = monthly_key ` set facts"
    unfolding monthly_weather_aggregation_def by (rule group_by_key_set)
  show "fst ` set (quarterly_weather_aggregation facts) = quarterly_key ` set facts"
    unfolding quarterly_weather_aggregation_def by (rule group_by_key_set)
  show "\<forall>(k, r) \<in> set (annual_weather_aggregation facts).
         filter (\<lambda>f. annual_key f = k) facts \<noteq> []
         \<and> r = aggregate_group (filter (\<lambda>f. annual_key f = k) facts)"
    unfolding annual_weather_aggregation_def by (rule group_by_rows)
  show "\<forall>(k, r) \<in> set (monthly_weather_aggregation facts).
         filter (\<lambda>f. monthly_key f = k) facts \<noteq> []
         \<and> r = aggregate_group (filter (\<lambda>f. monthly_key f = k) facts)"
    unfolding monthly_weather_aggregation_def by (rule group_by_rows)
  show "\<forall>(k, r) \<in> set (quarterly_weather_aggregation facts).
         filter (\<lambda>f. quarterly_key f = k) facts \<noteq> []
         \<and> r = aggregate_group (filter (\<lambda>f. quarterly_key f = k) facts)"
    unfolding quarterly_weather_aggregation_def by (rule group_by_rows)
  show "map (\<lambda>(k, r). (avg_max_temp_c r, record_count r))
              (annual_weather_aggregation [f1, f2]) = [(Some 11, 2)]"
    if "annual_key f1 = annual_key f2 \<and> max_temp_c f1 = Some 10 \<and> max_temp_c f2 = Some 12"
    using that by (simp add: two_facts_one_group)
  show "isl (weather_summary tbl) \<longleftrightarrow>
        (\<exists>k. sum_overflows 0
               (map w_precipitation_mm
                  (filter (\<lambda>row. all_present row \<and> summary_key row = k) tbl)))"
    by (rule weather_summary_fails)
  assume res: "weather_summary tbl = Inr result"
  show "distinct (map fst result)"
    unfolding weather_summary_rows [OF res] by (rule group_by_distinct)
  show "fst ` set result = summary_key ` set (filter all_present tbl)"
    unfolding weather_summary_rows [OF res] by (rule group_by_key_set)
  show "\<forall>(k, r) \<in> set result.
               filter (\<lambda>row. all_present row \<and> summary_key row = k) tbl \<noteq> []
               \<and> s_avg_max_temp_c r
                   = map_option (\<lambda>v. v / 10)
                       (mean_of (non_null (int_column (map w_max_temp_c
                          (filter (\<lambda>row. all_present row \<and> summary_key row = k) tbl)))))
               \<and> s_avg_min_temp_c r
                   = map_option (\<lambda>v. v / 10)
                       (mean_of (non_null (int_column (map w_min_temp_c
                          (filter (\<lambda>row. all_present row \<and> summary_key row = k) tbl)))))
               \<and> s_total_precip_cm r
                   = map_option (\<lambda>v. v / 100)
                       (sum_of (non_null (int_column (map w_precipitation_mm
                          (filter (\<lambda>row. all_present row \<and> summary_key row = k) tbl)))))"
  proof (intro ballI)
    fix x assume x: "x \<in> set result"
    obtain k r where kr: "x = (k, r)" by (cases x)
    from x have "(k, r) \<in> set result" unfolding kr .
    from summary_row_means [OF res this]
    show "case x of (k, r) \<Rightarrow>
               filter (\<lambda>row. all_present row \<and> summary_key row = k) tbl \<noteq> []
               \<and> s_avg_max_temp_c r
                   = map_option (\<lambda>v. v / 10)
                       (mean_of (non_null (int_column (map w_max_temp_c
                          (filter (\<lambda>row. all_present row \<and> summary_key row = k) tbl)))))
               \<and> s_avg_min_temp_c r
                   = map_option (\<lambda>v. v / 10)
                       (mean_of (non_null (int_column (map w_min_temp_c
                          (filter (\<lambda>row. all_present row \<and> summary_key row = k) tbl)))))
               \<and> s_total_precip_cm r
                   = map_option (\<lambda>v. v / 100)
                       (sum_of (non_null (int_column (map w_precipitation_mm
                          (filter (\<lambda>row. all_present row \<and> summary_key row = k) tbl)))))"
      unfolding kr by simp
  qed
qed

theorem aggregation_over_present_values_witness:
  "aggregate_group two_facts =
     \<lparr>avg_max_temp_c = Some 11, avg_min_temp_c = None, total_precip_mm = Some (1 / 2),
      record_count = 2, avg_quality_score = Some (7 / 10)\<rparr>
   \<and> annual_weather_aggregation two_facts = [((''S'', 2020), aggregate_group two_facts)]
   \<and> fst ` set (monthly_weather_aggregation two_facts) = {(''S'', 2020, 1), (''S'', 2020, 7)}
   \<and> fst ` set (quarterly_weather_aggregation two_facts) = {(''S'', 2020, 1), (''S'', 2020, 3)}
   \<and> (avg_max_temp_c \<circ> snd) ` set (monthly_weather_aggregation two_facts) = {Some 10, Some 12}
   \<and> (total_precip_mm \<circ> snd) ` set (quarterly_weather_aggregation two_facts)
       = {Some (1 / 2), None}
   \<and> annual_key (two_facts ! 0) = annual_key (two_facts ! 1)
   \<and> max_temp_c (two_facts ! 0) = Some 10 \<and> max_temp_c (two_facts ! 1) = Some 12
   \<and> map (\<lambda>(k, r). (avg_max_temp_c r, record_count r))
        (annual_weather_aggregation [two_facts ! 0, two_facts ! 1]) = [(Some 11, 2)]
   \<and> weather_summary partial_rows
       = Inr [((''S'', 2020), \<lparr>s_avg_max_temp_c = Some 20, s_avg_min_temp_c = Some 6,
                                s_total_precip_cm = Some (1 / 20)\<rparr>)]"
  using aggregation_over_present_values
          [where g = two_facts and facts = two_facts and tbl = partial_rows
             and ?f1.0 = "two_facts ! 0" and ?f2.0 = "two_facts ! 1"
             and result = "[((''S'', 2020), \<lparr>s_avg_max_temp_c = Some 20,
                              s_avg_min_temp_c = Some 6, s_total_precip_cm = Some (1 / 20)\<rparr>)]"]
  by (simp add: two_facts_def partial_rows_def observed_columns two_facts_scores
        annual_weather_aggregation_def monthly_weather_aggregation_def
        quarterly_weather_aggregation_def weather_summary_def group_by_def
        annual_key_def monthly_key_def quarterly_key_def summary_key_def all_present_def
        year_of_def month_of_def mean_of_def sum_of_def summarise_group_def int_column_def
        sql_avg_mean sql_sum_sum aggregate_group_means Let_def)

text \<open>
  The summary of answers/aggregate\_stats.py does not take the mean of a column over the
  values of that column that are present. Station \<open>S\<close> has the maximum temperatures 100 and
  200 (tenths of a degree) in 2020, the first on a day without a precipitation value: the
  mean of the values present is 15, the summary holds 20, the mean over the one row with all
  three values. Station \<open>T\<close> has a maximum temperature in 2020 and no summary row at all.
\<close>

theorem summary_mean_drops_rows_with_a_null:
  "map_sum id (map (\<lambda>(k, r). (k, s_avg_max_temp_c r))) (weather_summary partial_rows)
     = Inr [((''S'', 2020), Some 20)]
   \<and> map_option (\<lambda>v. v / 10)
       (mean_of (non_null (int_column (map w_max_temp_c
          (filter (\<lambda>row. summary_key row = (''S'', 2020)) partial_rows))))) = Some 15
   \<and> map_option (\<lambda>v. v / 10)
       (mean_of (non_null (int_column (map w_max_temp_c
          (filter (\<lambda>row. summary_key row = (''T'', 2020)) partial_rows))))) = Some 30"
  by (simp add: partial_rows_def weather_summary_def group_by_def summary_key_def
        all_present_def year_of_def mean_of_def summarise_group_def int_column_def
        sql_avg_mean sql_sum_sum Let_def)

end
